theory Spec2Isabelle
  imports Complex_Main
begin

section \<open>Python values shared by the three services\<close>

text \<open>
  A Python \<open>str\<close> is a sequence of Unicode code points; it is modelled as a list of
  natural numbers (one per code point). \<open>ustr\<close> turns an ASCII literal of the
  source into that representation. A Python \<open>float\<close> is modelled as a real number:
  rounding, infinities and NaN are outside the model.
\<close>

type_synonym pystr = "nat list"

definition ustr :: "string \<Rightarrow> pystr" where
  "ustr s = map of_char s"

text \<open>The exceptions that the modelled code can meet.\<close>

datatype py_exc =
    AttributeError | TypeError | ValueError | OverflowError | ValidationError
  | ZeroDivisionError | RedisError

text \<open>What a handler raises: an \<open>HTTPException\<close> with its status code.\<close>

datatype http_error = HTTP nat

section \<open>Content moderation service (routes/moderation.py)\<close>

subsection \<open>The regular expressions of \<open>BLOCKED_PATTERNS\<close>\<close>

text \<open>
  The fragment of Python's \<open>re\<close> syntax that the four patterns use: literal
  characters, character classes, \<open>\s\<close>, \<open>\b\<close>, concatenation, alternation,
  \<open>?\<close> and \<open>+\<close>. Groups only capture, which \<open>re.search\<close> used as a truth
  value does not observe, so they are not represented.
\<close>

datatype rx =
    Eps
  | Chr nat
  | Cls "nat list"
  | Space
  | WordB
  | Seq rx rx
  | Alt rx rx
  | Opt rx
  | Plus rx

text \<open>
  The matching depends on the Unicode tables of the Python runtime, which are
  not part of the repository and are taken as a parameter: \<open>str.lower\<close>, which
  works on the whole string and may change its length; the relation between a
  character of a pattern and a character of the text under \<open>re.IGNORECASE\<close>;
  and the word characters \<open>\w\<close>, which decide where \<open>\b\<close> holds. Everything
  proved below for all tables holds for the tables of the runtime.
\<close>

record unicode_tables =
  str_lower :: "pystr \<Rightarrow> pystr"
  ignorecase_match :: "nat \<Rightarrow> nat \<Rightarrow> bool"
  word_char :: "nat \<Rightarrow> bool"

text \<open>\<open>\s\<close> on a \<open>str\<close> pattern: the white space of \<open>str.isspace\<close>.\<close>

definition is_space :: "nat \<Rightarrow> bool" where
  "is_space c = ((9 \<le> c \<and> c \<le> 13) \<or> (28 \<le> c \<and> c \<le> 32) \<or> c = 133 \<or> c = 160
     \<or> c = 5760 \<or> (8192 \<le> c \<and> c \<le> 8202) \<or> c = 8232 \<or> c = 8233
     \<or> c = 8239 \<or> c = 8287 \<or> c = 12288)"

text \<open>
  A matching position is the code point before it (if any) and the text after
  it. \<open>\b\<close> holds where exactly one of the two neighbours is a word character,
  the ends of the string counting as non-word.
\<close>

type_synonym rx_pos = "nat option \<times> pystr"

definition word_before :: "unicode_tables \<Rightarrow> rx_pos \<Rightarrow> bool" where
  "word_before u p = (case fst p of None \<Rightarrow> False | Some c \<Rightarrow> word_char u c)"

definition word_after :: "unicode_tables \<Rightarrow> rx_pos \<Rightarrow> bool" where
  "word_after u p = (case snd p of [] \<Rightarrow> False | c # _ \<Rightarrow> word_char u c)"

text \<open>
  One or more repetitions. Every repetition that matters consumes a character,
  so the number of rounds is bounded by the text that is left.
\<close>

primrec plus_iter :: "(rx_pos \<Rightarrow> rx_pos list) \<Rightarrow> nat \<Rightarrow> rx_pos \<Rightarrow> rx_pos list" where
  "plus_iter f 0 p = []"
| "plus_iter f (Suc n) p = concat (map (\<lambda>q. q # plus_iter f n q) (f p))"

text \<open>\<open>rx_step u r p\<close>: the positions at which a match of \<open>r\<close> begun at \<open>p\<close> can end.\<close>

primrec rx_step :: "unicode_tables \<Rightarrow> rx \<Rightarrow> rx_pos \<Rightarrow> rx_pos list" where
  "rx_step u Eps p = [p]"
| "rx_step u (Chr c) p =
     (case snd p of [] \<Rightarrow> []
      | x # xs \<Rightarrow> if ignorecase_match u c x then [(Some x, xs)] else [])"
| "rx_step u (Cls cs) p =
     (case snd p of [] \<Rightarrow> []
      | x # xs \<Rightarrow> if list_ex (\<lambda>c. ignorecase_match u c x) cs then [(Some x, xs)] else [])"
| "rx_step u Space p =
     (case snd p of [] \<Rightarrow> [] | x # xs \<Rightarrow> if is_space x then [(Some x, xs)] else [])"
| "rx_step u WordB p = (if word_before u p \<noteq> word_after u p then [p] else [])"
| "rx_step u (Seq a b) p = concat (map (rx_step u b) (rx_step u a p))"
| "rx_step u (Alt a b) p = rx_step u a p @ rx_step u b p"
| "rx_step u (Opt a) p = rx_step u a p @ [p]"
| "rx_step u (Plus a) p = plus_iter (rx_step u a) (Suc (length (snd p))) p"

text \<open>\<open>re.search\<close> as a truth value: a match may begin at any position.\<close>

fun search_from :: "unicode_tables \<Rightarrow> rx \<Rightarrow> nat option \<Rightarrow> pystr \<Rightarrow> bool" where
  "search_from u r prev [] = (rx_step u r (prev, []) \<noteq> [])"
| "search_from u r prev (x # xs) =
     (rx_step u r (prev, x # xs) \<noteq> [] \<or> search_from u r (Some x) xs)"

definition re_search :: "unicode_tables \<Rightarrow> rx \<Rightarrow> pystr \<Rightarrow> bool" where
  "re_search u r s = search_from u r None s"

text \<open>Building blocks for writing the patterns down.\<close>

primrec word :: "string \<Rightarrow> rx" where
  "word [] = Eps"
| "word (c # cs) = Seq (Chr (of_char c)) (word cs)"

primrec seqs :: "rx list \<Rightarrow> rx" where
  "seqs [] = Eps"
| "seqs (r # rs) = Seq r (seqs rs)"

primrec alts :: "rx list \<Rightarrow> rx" where
  "alts [] = Cls []"
| "alts (r # rs) = Alt r (alts rs)"

definition spaces :: rx where
  "spaces = Plus Space"

text \<open>
  \<^verbatim>\<open>
  BLOCKED_PATTERNS = [
      r"\b(kill|murder|harm|attack|hurt)\s+(yourself|myself|people|someone)\b",
      r"\b(suicide|self[- ]?harm|end\s+(my|your)\s+life)\b",
      r"\b(how\s+to\s+(make|create|build)\s+(bomb|weapon|drug))\b",
      r"\b(what['\u2019]?s\s+your\s+(address|phone|ssn|credit\s+card))\b",
  ]
  \<close>
\<close>

definition pattern_violence :: rx where
  "pattern_violence = seqs
     [WordB,
      alts [word ''kill'', word ''murder'', word ''harm'', word ''attack'', word ''hurt''],
      spaces,
      alts [word ''yourself'', word ''myself'', word ''people'', word ''someone''],
      WordB]"

definition pattern_self_harm :: rx where
  "pattern_self_harm = seqs
     [WordB,
      alts [word ''suicide'',
            seqs [word ''self'', Opt (Cls [45, 32]), word ''harm''],
            seqs [word ''end'', spaces, alts [word ''my'', word ''your''], spaces,
                  word ''life'']],
      WordB]"

definition pattern_illegal :: rx where
  "pattern_illegal = seqs
     [WordB,
      seqs [word ''how'', spaces, word ''to'', spaces,
            alts [word ''make'', word ''create'', word ''build''], spaces,
            alts [word ''bomb'', word ''weapon'', word ''drug'']],
      WordB]"

definition pattern_personal_info :: rx where
  "pattern_personal_info = seqs
     [WordB,
      seqs [word ''what'', Opt (Cls [39, 8217]), word ''s'', spaces, word ''your'', spaces,
            alts [word ''address'', word ''phone'', word ''ssn'',
                  seqs [word ''credit'', spaces, word ''card'']]],
      WordB]"

definition BLOCKED_PATTERNS :: "rx list" where
  "BLOCKED_PATTERNS =
     [pattern_violence, pattern_self_harm, pattern_illegal, pattern_personal_info]"

subsection \<open>Requests, flags and responses\<close>

record ModerationRequest =
  content :: pystr
  filter_level :: pystr

record ModerationFlag =
  category :: pystr
  severity :: pystr
  description :: pystr

record ModerationResponse =
  passed :: bool
  flags :: "ModerationFlag list"
  score :: real

text \<open>The thresholds of \<open>config.py\<close>; the defaults are 0.3, 0.6 and 0.8.\<close>

record Settings =
  severity_threshold_low :: real
  severity_threshold_medium :: real
  severity_threshold_high :: real

definition default_settings :: Settings where
  "default_settings =
     \<lparr>severity_threshold_low = 3 / 10, severity_threshold_medium = 6 / 10,
      severity_threshold_high = 8 / 10\<rparr>"

subsection \<open>\<open>check_keyword_filters\<close>\<close>

definition keyword_flag :: ModerationFlag where
  "keyword_flag =
     \<lparr>category = ustr ''keyword_match'', severity = ustr ''high'',
      description = ustr ''Content matched blocked pattern''\<rparr>"

text \<open>The loop over the patterns appends one flag for every pattern that matches.\<close>

fun keyword_loop ::
  "unicode_tables \<Rightarrow> rx list \<Rightarrow> pystr \<Rightarrow> ModerationFlag list \<Rightarrow> ModerationFlag list" where
  "keyword_loop u [] content_lower fl = fl"
| "keyword_loop u (pattern # rest) content_lower fl =
     keyword_loop u rest content_lower
       (if re_search u pattern content_lower then fl @ [keyword_flag] else fl)"

definition check_keyword_filters :: "unicode_tables \<Rightarrow> pystr \<Rightarrow> ModerationFlag list" where
  "check_keyword_filters u c = keyword_loop u BLOCKED_PATTERNS (str_lower u c) []"

subsection \<open>The classifier and its JSON answer\<close>

text \<open>
  What \<open>json.loads\<close> returns. An object is kept as the list of its members; a
  number written as an integer is an \<open>int\<close> of any size, every other number a
  \<open>float\<close>.
\<close>

datatype json =
    JNull
  | JBool bool
  | JInt int
  | JNum real
  | JStr pystr
  | JArr "json list"
  | JObj "(pystr \<times> json) list"

text \<open>
  One call of \<open>claude_client.messages.create\<close> followed by reading the text of the
  answer: the call (or the access to \<open>content[0].text\<close>) raises; the answer has no
  content block, so the text is \<open>"{}"\<close>; the text is one that \<open>json.loads\<close> rejects
  with \<open>JSONDecodeError\<close>; or the text is one that \<open>json.loads\<close> turns into a value.
\<close>

datatype llm_reply = Raises | EmptyContent | MalformedText | JsonText json

text \<open>
  The surroundings of the service: the client (absent when no API key is
  configured), which may answer every call differently and is therefore given
  the number of earlier calls along with the prompt; the settings; the builtin
  \<open>float\<close> on strings (\<open>None\<close> where it raises \<open>ValueError\<close>); and the
  Unicode tables of the runtime.
  The calls made so far are kept as the list of their prompts.
\<close>

record mod_env =
  claude_client :: "(nat \<Rightarrow> pystr \<Rightarrow> llm_reply) option"
  settings :: Settings
  float_of_str :: "pystr \<Rightarrow> real option"
  tables :: unicode_tables

type_synonym llm_log = "pystr list"

definition moderation_prompt :: "pystr \<Rightarrow> pystr" where
  \<open>moderation_prompt c =
     ustr ''Analyze the following content for safety issues. Respond with a JSON object containing:''
     @ [10] @ ustr ''- "flags": array of objects with "category" (one of: violence, self_harm, sexual_explicit, hate_speech, harassment, illegal_activity, personal_info, spam), "severity" (low/medium/high), and "description"''
     @ [10] @ ustr ''- "score": overall safety score from 0 (completely safe) to 1 (extremely unsafe)''
     @ [10, 10] @ ustr ''Content to analyze:''
     @ [10, 34] @ c @ [34, 10, 10]
     @ ustr ''Respond ONLY with valid JSON, no other text.''\<close>

text \<open>\<open>x.get(k, default)\<close>: only a dict has the method.\<close>

definition attr_get :: "json \<Rightarrow> pystr \<Rightarrow> json \<Rightarrow> py_exc + json" where
  "attr_get x k dflt =
     (case x of
        JObj d \<Rightarrow> (case map_of d k of None \<Rightarrow> Inr dflt | Some v \<Rightarrow> Inr v)
      | _ \<Rightarrow> Inl AttributeError)"

text \<open>A \<open>str\<close> field of a pydantic model accepts a string and nothing else of JSON.\<close>

definition str_field :: "json \<Rightarrow> py_exc + pystr" where
  "str_field x = (case x of JStr s \<Rightarrow> Inr s | _ \<Rightarrow> Inl ValidationError)"

definition make_flag :: "json \<Rightarrow> py_exc + ModerationFlag" where
  "make_flag f =
     (case attr_get f (ustr ''category'') (JStr (ustr ''unknown'')) of
        Inl e \<Rightarrow> Inl e
      | Inr c \<Rightarrow>
     (case attr_get f (ustr ''severity'') (JStr (ustr ''low'')) of
        Inl e \<Rightarrow> Inl e
      | Inr s \<Rightarrow>
     (case attr_get f (ustr ''description'') (JStr []) of
        Inl e \<Rightarrow> Inl e
      | Inr d \<Rightarrow>
     (case str_field c of
        Inl e \<Rightarrow> Inl e
      | Inr c' \<Rightarrow>
     (case str_field s of
        Inl e \<Rightarrow> Inl e
      | Inr s' \<Rightarrow>
     (case str_field d of
        Inl e \<Rightarrow> Inl e
      | Inr d' \<Rightarrow> Inr \<lparr>category = c', severity = s', description = d'\<rparr>))))))"

text \<open>
  What a \<open>for\<close> loop over a JSON value visits: the items of a list, the
  characters of a string, the keys of a dict; anything else is not iterable.
\<close>

definition iter_items :: "json \<Rightarrow> py_exc + json list" where
  "iter_items x =
     (case x of
        JArr xs \<Rightarrow> Inr xs
      | JStr s \<Rightarrow> Inr (map (\<lambda>c. JStr [c]) s)
      | JObj d \<Rightarrow> Inr (map (\<lambda>kv. JStr (fst kv)) d)
      | _ \<Rightarrow> Inl TypeError)"

fun make_flags :: "json list \<Rightarrow> py_exc + ModerationFlag list" where
  "make_flags [] = Inr []"
| "make_flags (f # fs) =
     (case make_flag f of
        Inl e \<Rightarrow> Inl e
      | Inr x \<Rightarrow> (case make_flags fs of Inl e \<Rightarrow> Inl e | Inr xs \<Rightarrow> Inr (x # xs)))"

text \<open>
  The builtin \<open>float\<close> on a JSON value. An \<open>int\<close> is converted when it rounds
  to a finite double, that is when its absolute value is below
  \<open>2^1024 - 2^970\<close>, and raises \<open>OverflowError\<close> otherwise.
\<close>

definition float_int_bound :: int where
  "float_int_bound = 2 ^ 1024 - 2 ^ 970"

definition py_float :: "(pystr \<Rightarrow> real option) \<Rightarrow> json \<Rightarrow> py_exc + real" where
  "py_float fos x =
     (case x of
        JNum r \<Rightarrow> Inr r
      | JInt i \<Rightarrow> (if \<bar>i\<bar> < float_int_bound then Inr (of_int i) else Inl OverflowError)
      | JBool b \<Rightarrow> Inr (if b then 1 else 0)
      | JStr s \<Rightarrow> (case fos s of None \<Rightarrow> Inl ValueError | Some r \<Rightarrow> Inr r)
      | _ \<Rightarrow> Inl TypeError)"

text \<open>The list comprehension over \<open>result.get("flags", [])\<close>.\<close>

definition read_flags :: "json \<Rightarrow> py_exc + ModerationFlag list" where
  "read_flags result =
     (case attr_get result (ustr ''flags'') (JArr []) of
        Inl e \<Rightarrow> Inl e
      | Inr fv \<Rightarrow>
     (case iter_items fv of
        Inl e \<Rightarrow> Inl e
      | Inr items \<Rightarrow> make_flags items))"

text \<open>The body of the inner \<open>try\<close> after \<open>json.loads\<close> has succeeded.\<close>

definition read_result :: "(pystr \<Rightarrow> real option) \<Rightarrow> json \<Rightarrow> py_exc + (ModerationFlag list \<times> real)" where
  "read_result fos result =
     (case read_flags result of
        Inl e \<Rightarrow> Inl e
      | Inr fl \<Rightarrow>
     (case attr_get result (ustr ''score'') (JInt 0) of
        Inl e \<Rightarrow> Inl e
      | Inr sv \<Rightarrow>
     (case py_float fos sv of
        Inl e \<Rightarrow> Inl e
      | Inr sc \<Rightarrow> Inr (fl, sc))))"

text \<open>
  \<open>check_ai_moderation\<close>. Without a client nothing is called. Otherwise the call is
  recorded; \<open>JSONDecodeError\<close> is caught by the inner handler and every other
  exception by the outer one, both returning no flags and score 0.
\<close>

definition check_ai_moderation ::
  "mod_env \<Rightarrow> pystr \<Rightarrow> llm_log \<Rightarrow> (ModerationFlag list \<times> real) \<times> llm_log" where
  "check_ai_moderation env c calls =
     (case claude_client env of
        None \<Rightarrow> (([], 0), calls)
      | Some client \<Rightarrow>
          (let prompt = moderation_prompt c;
               calls' = calls @ [prompt]
           in case client (length calls) prompt of
                Raises \<Rightarrow> (([], 0), calls')
              | MalformedText \<Rightarrow> (([], 0), calls')
              | EmptyContent \<Rightarrow>
                  (case read_result (float_of_str env) (JObj []) of
                     Inl e \<Rightarrow> (([], 0), calls')
                   | Inr r \<Rightarrow> (r, calls'))
              | JsonText result \<Rightarrow>
                  (case read_result (float_of_str env) result of
                     Inl e \<Rightarrow> (([], 0), calls')
                   | Inr r \<Rightarrow> (r, calls'))))"

subsection \<open>\<open>moderate_content\<close> and \<open>moderate_batch\<close>\<close>

definition is_high :: "ModerationFlag \<Rightarrow> bool" where
  "is_high f = (severity f = ustr ''high'')"

text \<open>\<open>thresholds.get(request.filter_level, settings.severity_threshold_medium)\<close>\<close>

definition threshold_for :: "Settings \<Rightarrow> pystr \<Rightarrow> real" where
  "threshold_for st lvl =
     (case map_of
        [(ustr ''strict'', severity_threshold_low st),
         (ustr ''moderate'', severity_threshold_medium st),
         (ustr ''relaxed'', severity_threshold_high st)] lvl of
        None \<Rightarrow> severity_threshold_medium st
      | Some t \<Rightarrow> t)"

text \<open>
  The handler returns the response (the \<open>data\<close> of the JSON envelope, whose
  \<open>success\<close> is always true) and the list of classifier calls.
\<close>

definition moderate_content ::
  "mod_env \<Rightarrow> ModerationRequest \<Rightarrow> llm_log \<Rightarrow> ModerationResponse \<times> llm_log" where
  "moderate_content env request calls =
     (let keyword_flags = check_keyword_filters (tables env) (content request);
          all_flags = [] @ keyword_flags
      in if list_ex is_high keyword_flags
         then (\<lparr>passed = False, flags = all_flags, score = 1\<rparr>, calls)
         else
           (case check_ai_moderation env (content request) calls of
              ((ai_flags, ai_score), calls') \<Rightarrow>
                (let all_flags' = all_flags @ ai_flags;
                     final_score = (if keyword_flags \<noteq> [] then max ai_score (1 / 2) else ai_score);
                     threshold = threshold_for (settings env) (filter_level request);
                     ok = (final_score < threshold \<and> \<not> list_ex is_high all_flags')
                 in (\<lparr>passed = ok, flags = all_flags', score = final_score\<rparr>, calls'))))"

fun batch_loop ::
  "mod_env \<Rightarrow> pystr list \<Rightarrow> ModerationResponse list \<Rightarrow> llm_log \<Rightarrow> ModerationResponse list \<times> llm_log" where
  "batch_loop env [] results calls = (results, calls)"
| "batch_loop env (c # cs) results calls =
     (let keyword_flags = check_keyword_filters (tables env) c
      in case check_ai_moderation env c calls of
           ((ai_flags, ai_score), calls') \<Rightarrow>
             (let all_flags = keyword_flags @ ai_flags;
                  ok = (ai_score < severity_threshold_medium (settings env)
                        \<and> \<not> list_ex is_high all_flags)
              in batch_loop env cs
                   (results @ [\<lparr>passed = ok, flags = all_flags, score = ai_score\<rparr>]) calls'))"

definition moderate_batch ::
  "mod_env \<Rightarrow> pystr list \<Rightarrow> llm_log \<Rightarrow> ModerationResponse list \<times> llm_log" where
  "moderate_batch env contents calls = batch_loop env (take 10 contents) [] calls"

subsection \<open>Notions and sample inputs used in the statements\<close>

text \<open>The content matches at least one blocked pattern, scanned in lower case.\<close>

definition matches_blocked :: "unicode_tables \<Rightarrow> pystr \<Rightarrow> bool" where
  "matches_blocked u c = list_ex (\<lambda>p. re_search u p (str_lower u c)) BLOCKED_PATTERNS"

text \<open>
  The sample inputs below are ASCII text. For them the tables are needed on
  ASCII only, where they are: \<open>str.lower\<close> folds the letters A to Z; under
  \<open>re.IGNORECASE\<close> two ASCII characters match when they are the same letter
  in either case; and the word characters are the letters, the digits and the
  underscore. \<open>ascii_tables\<close> extends this by leaving every other code point
  alone; \<open>agree_on_ascii\<close> says that some tables, such as those of the runtime,
  coincide with it wherever ASCII text is matched against the characters that
  the blocked patterns contain.
\<close>

definition ascii_lower :: "nat \<Rightarrow> nat" where
  "ascii_lower c = (if 65 \<le> c \<and> c \<le> 90 then c + 32 else c)"

definition ascii_word :: "nat \<Rightarrow> bool" where
  "ascii_word c = ((48 \<le> c \<and> c \<le> 57) \<or> (65 \<le> c \<and> c \<le> 90) \<or> c = 95
     \<or> (97 \<le> c \<and> c \<le> 122))"

definition ascii_tables :: unicode_tables where
  "ascii_tables =
     \<lparr>str_lower = map ascii_lower,
      ignorecase_match = (\<lambda>c x. ascii_lower c = ascii_lower x),
      word_char = ascii_word\<rparr>"

definition is_ascii :: "pystr \<Rightarrow> bool" where
  "is_ascii s = list_all (\<lambda>x. x < 128) s"

definition pattern_char :: "nat \<Rightarrow> bool" where
  "pattern_char c = (c < 128 \<or> c = 8217)"

definition agree_on_ascii :: "unicode_tables \<Rightarrow> bool" where
  "agree_on_ascii u =
     ((\<forall>s. is_ascii s \<longrightarrow> str_lower u s = map ascii_lower s) \<and>
      (\<forall>c x. pattern_char c \<and> x < 128 \<longrightarrow>
         ignorecase_match u c x = (ascii_lower c = ascii_lower x)) \<and>
      (\<forall>x. x < 128 \<longrightarrow> word_char u x = ascii_word x))"

definition ascii_pos :: "rx_pos \<Rightarrow> bool" where
  "ascii_pos p = ((case fst p of None \<Rightarrow> True | Some c \<Rightarrow> c < 128) \<and> is_ascii (snd p))"

text \<open>The code points written in a pattern.\<close>

primrec rx_chars :: "rx \<Rightarrow> nat list" where
  "rx_chars Eps = []"
| "rx_chars (Chr c) = [c]"
| "rx_chars (Cls cs) = cs"
| "rx_chars Space = []"
| "rx_chars WordB = []"
| "rx_chars (Seq a b) = rx_chars a @ rx_chars b"
| "rx_chars (Alt a b) = rx_chars a @ rx_chars b"
| "rx_chars (Opt a) = rx_chars a"
| "rx_chars (Plus a) = rx_chars a"

text \<open>
  The classifier calls made before item \<open>i\<close> of a batch: one per earlier item
  when a client is configured, none otherwise.
\<close>

definition batch_calls_before :: "mod_env \<Rightarrow> pystr list \<Rightarrow> llm_log \<Rightarrow> nat \<Rightarrow> llm_log" where
  "batch_calls_before env contents calls i =
     (case claude_client env of
        None \<Rightarrow> calls
      | Some client \<Rightarrow> calls @ map moderation_prompt (take i contents))"

text \<open>
  The classifier gives no usable answer to the call that \<open>check_ai_moderation\<close>
  would make: no client is configured, the call raises, or the text is not JSON.
\<close>

definition classifier_unavailable :: "mod_env \<Rightarrow> pystr \<Rightarrow> llm_log \<Rightarrow> bool" where
  "classifier_unavailable env c calls =
     (case claude_client env of
        None \<Rightarrow> True
      | Some client \<Rightarrow>
          (case client (length calls) (moderation_prompt c) of
             Raises \<Rightarrow> True
           | MalformedText \<Rightarrow> True
           | _ \<Rightarrow> False))"

definition no_float :: "pystr \<Rightarrow> real option" where
  "no_float s = None"

definition unconfigured_env :: mod_env where
  "unconfigured_env =
     \<lparr>claude_client = None, settings = default_settings, float_of_str = no_float,
      tables = ascii_tables\<rparr>"

definition overscoring_client :: "nat \<Rightarrow> pystr \<Rightarrow> llm_reply" where
  "overscoring_client n prompt =
     JsonText (JObj [(ustr ''flags'', JArr []), (ustr ''score'', JInt 7)])"

definition overscoring_env :: mod_env where
  "overscoring_env =
     \<lparr>claude_client = Some overscoring_client, settings = default_settings,
      float_of_str = no_float, tables = ascii_tables\<rparr>"

definition failing_client :: "nat \<Rightarrow> pystr \<Rightarrow> llm_reply" where
  "failing_client n prompt = (if even n then Raises else MalformedText)"

definition failing_env :: mod_env where
  "failing_env =
     \<lparr>claude_client = Some failing_client, settings = default_settings,
      float_of_str = no_float, tables = ascii_tables\<rparr>"

definition mild_client :: "nat \<Rightarrow> pystr \<Rightarrow> llm_reply" where
  "mild_client n prompt =
     JsonText (JObj
       [(ustr ''flags'',
         JArr [JObj [(ustr ''category'', JStr (ustr ''spam'')),
                     (ustr ''severity'', JStr (ustr ''low''))]]),
        (ustr ''score'', JNum (1 / 4))])"

definition mild_env :: mod_env where
  "mild_env =
     \<lparr>claude_client = Some mild_client, settings = default_settings,
      float_of_str = no_float, tables = ascii_tables\<rparr>"

definition hello_request :: ModerationRequest where
  "hello_request = \<lparr>content = ustr ''hello world'', filter_level = ustr ''moderate''\<rparr>"

definition bomb_request :: ModerationRequest where
  "bomb_request = \<lparr>content = ustr ''how to make bomb'', filter_level = ustr ''relaxed''\<rparr>"

section \<open>Memory service (routes/memory.py)\<close>

subsection \<open>The key-value store\<close>

text \<open>
  The record that \<open>store_memory\<close> serialises with \<open>json.dumps\<close> and that
  \<open>retrieve_memories\<close> reads back with \<open>json.loads\<close>; the fields are the keys
  \<open>id\<close>, \<open>conversation_id\<close>, \<open>content\<close>, \<open>type\<close>, \<open>importance\<close> and
  \<open>embedding\<close> of the dict. The store is taken to hold, under the keys of this
  service, only what this service writes.
\<close>

record MemoryData =
  m_id :: pystr
  m_conversation_id :: pystr
  m_content :: pystr
  m_type :: pystr
  m_importance :: real
  m_embedding :: "real list option"

text \<open>
  A key holds a string or a set, together with its time to live in seconds (if
  any). A set is kept as the list of its members without repetition; the order
  of the list stands for the order in which the members are handed out. The
  passing of time, and with it the removal of expired keys, is not part of the
  model: the statements below are about calls that follow one another before
  anything expires.
\<close>

datatype rvalue = RString MemoryData | RSet "pystr list"

type_synonym redis_store = "pystr \<Rightarrow> (rvalue \<times> int option) option"

text \<open>
  The state that the handlers change: the store, the number of commands sent to
  it and the number of calls made to the embedding provider.
\<close>

record mem_state =
  store :: redis_store
  redis_ops :: nat
  embed_calls :: nat

text \<open>
  The surroundings: the store client (absent when it could not be created),
  given as the health of the connection at each command; the embedding client
  (absent without an API key), whose answer \<open>None\<close> stands for a call that
  raises; the \<open>hash\<close> of strings in this process; and the configured time to
  live.
\<close>

record mem_env =
  redis_client :: "(nat \<Rightarrow> bool) option"
  openai_client :: "(nat \<Rightarrow> pystr \<Rightarrow> real list option) option"
  py_hash :: "pystr \<Rightarrow> int"
  short_term_ttl :: int

definition sent :: "mem_state \<Rightarrow> mem_state" where
  "sent st = st\<lparr>redis_ops := Suc (redis_ops st)\<rparr>"

text \<open>
  The commands. Each one is counted, fails with an exception when the
  connection is down, and otherwise behaves as the server does; a command on a
  key of the wrong type is answered with an error, which the client raises.
\<close>

definition setex ::
  "(nat \<Rightarrow> bool) \<Rightarrow> pystr \<Rightarrow> int \<Rightarrow> MemoryData \<Rightarrow> mem_state \<Rightarrow> (py_exc + unit) \<times> mem_state" where
  "setex conn key ttl v st =
     (if \<not> conn (redis_ops st) then (Inl RedisError, sent st)
      else if ttl \<le> 0 then (Inl RedisError, sent st)
      else (Inr (), sent (st\<lparr>store := (store st)(key \<mapsto> (RString v, Some ttl))\<rparr>)))"

definition sadd ::
  "(nat \<Rightarrow> bool) \<Rightarrow> pystr \<Rightarrow> pystr \<Rightarrow> mem_state \<Rightarrow> (py_exc + unit) \<times> mem_state" where
  "sadd conn key member st =
     (if \<not> conn (redis_ops st) then (Inl RedisError, sent st)
      else case store st key of
             None \<Rightarrow> (Inr (), sent (st\<lparr>store := (store st)(key \<mapsto> (RSet [member], None))\<rparr>))
           | Some (RSet ms, t) \<Rightarrow>
               (Inr (),
                sent (st\<lparr>store := (store st)
                  (key \<mapsto> (RSet (if member \<in> set ms then ms else ms @ [member]), t))\<rparr>))
           | Some (RString v, t) \<Rightarrow> (Inl RedisError, sent st))"

definition expire ::
  "(nat \<Rightarrow> bool) \<Rightarrow> pystr \<Rightarrow> int \<Rightarrow> mem_state \<Rightarrow> (py_exc + unit) \<times> mem_state" where
  "expire conn key ttl st =
     (if \<not> conn (redis_ops st) then (Inl RedisError, sent st)
      else case store st key of
             None \<Rightarrow> (Inr (), sent st)
           | Some (v, t) \<Rightarrow>
               (if ttl \<le> 0 then (Inr (), sent (st\<lparr>store := (store st)(key := None)\<rparr>))
                else (Inr (), sent (st\<lparr>store := (store st)(key \<mapsto> (v, Some ttl))\<rparr>))))"

definition smembers ::
  "(nat \<Rightarrow> bool) \<Rightarrow> pystr \<Rightarrow> mem_state \<Rightarrow> (py_exc + pystr list) \<times> mem_state" where
  "smembers conn key st =
     (if \<not> conn (redis_ops st) then (Inl RedisError, sent st)
      else case store st key of
             None \<Rightarrow> (Inr [], sent st)
           | Some (RSet ms, t) \<Rightarrow> (Inr ms, sent st)
           | Some (RString v, t) \<Rightarrow> (Inl RedisError, sent st))"

definition redis_get ::
  "(nat \<Rightarrow> bool) \<Rightarrow> pystr \<Rightarrow> mem_state \<Rightarrow> (py_exc + MemoryData option) \<times> mem_state" where
  "redis_get conn key st =
     (if \<not> conn (redis_ops st) then (Inl RedisError, sent st)
      else case store st key of
             None \<Rightarrow> (Inr None, sent st)
           | Some (RString v, t) \<Rightarrow> (Inr (Some v), sent st)
           | Some (RSet ms, t) \<Rightarrow> (Inl RedisError, sent st))"

definition redis_delete ::
  "(nat \<Rightarrow> bool) \<Rightarrow> pystr \<Rightarrow> mem_state \<Rightarrow> (py_exc + unit) \<times> mem_state" where
  "redis_delete conn key st =
     (if \<not> conn (redis_ops st) then (Inl RedisError, sent st)
      else (Inr (), sent (st\<lparr>store := (store st)(key := None)\<rparr>)))"

subsection \<open>Keys and ids\<close>

text \<open>\<open>str\<close> of an integer, as the f-string renders the hash.\<close>

function digits :: "nat \<Rightarrow> pystr" where
  "digits n = (if n < 10 then [48 + n] else digits (n div 10) @ [48 + n mod 10])"
  by pat_completeness auto
termination
  by (relation "measure (\<lambda>n. n)") auto

declare digits.simps [simp del]

definition str_int :: "int \<Rightarrow> pystr" where
  "str_int i = (if i < 0 then 45 # digits (nat (- i)) else digits (nat i))"

text \<open>\<open>f"{request.conversation_id}:{hash(request.content)}"\<close>\<close>

definition memory_id_of :: "mem_env \<Rightarrow> pystr \<Rightarrow> pystr \<Rightarrow> pystr" where
  "memory_id_of env conversation_id c = conversation_id @ ustr '':'' @ str_int (py_hash env c)"

definition memory_key :: "pystr \<Rightarrow> pystr" where
  "memory_key mid = ustr ''memory:'' @ mid"

definition index_key :: "pystr \<Rightarrow> pystr" where
  "index_key conversation_id = ustr ''memory_index:'' @ conversation_id"

subsection \<open>\<open>get_embedding\<close> and \<open>store_memory\<close>\<close>

definition get_embedding :: "mem_env \<Rightarrow> pystr \<Rightarrow> mem_state \<Rightarrow> real list option \<times> mem_state" where
  "get_embedding env text st =
     (case openai_client env of
        None \<Rightarrow> (None, st)
      | Some client \<Rightarrow>
          (client (embed_calls st) text, st\<lparr>embed_calls := Suc (embed_calls st)\<rparr>))"

record StoreMemoryRequest =
  sm_conversation_id :: pystr
  sm_content :: pystr
  sm_memory_type :: pystr
  sm_importance :: real

record StoreResult =
  stored_id :: pystr
  stored :: bool

definition store_memory ::
  "mem_env \<Rightarrow> StoreMemoryRequest \<Rightarrow> mem_state \<Rightarrow> (http_error + StoreResult) \<times> mem_state" where
  "store_memory env request st =
     (case redis_client env of
        None \<Rightarrow> (Inl (HTTP 503), st)
      | Some conn \<Rightarrow>
          (let memory_id = memory_id_of env (sm_conversation_id request) (sm_content request)
           in case get_embedding env (sm_content request) st of
                (embedding, st1) \<Rightarrow>
                  (let memory_data =
                         \<lparr>m_id = memory_id,
                          m_conversation_id = sm_conversation_id request,
                          m_content = sm_content request,
                          m_type = sm_memory_type request,
                          m_importance = sm_importance request,
                          m_embedding = embedding\<rparr>;
                       key = memory_key memory_id
                   in case setex conn key (short_term_ttl env) memory_data st1 of
                        (Inl e, st2) \<Rightarrow> (Inl (HTTP 500), st2)
                      | (Inr u, st2) \<Rightarrow>
                          (let idx = index_key (sm_conversation_id request)
                           in case sadd conn idx memory_id st2 of
                                (Inl e, st3) \<Rightarrow> (Inl (HTTP 500), st3)
                              | (Inr u, st3) \<Rightarrow>
                                  (case expire conn idx (short_term_ttl env * 24) st3 of
                                     (Inl e, st4) \<Rightarrow> (Inl (HTTP 500), st4)
                                   | (Inr u, st4) \<Rightarrow>
                                       (Inr \<lparr>stored_id = memory_id, stored = True\<rparr>, st4))))))"

subsection \<open>\<open>retrieve_memories\<close>\<close>

definition py_div :: "real \<Rightarrow> real \<Rightarrow> py_exc + real" where
  "py_div a b = (if b = 0 then Inl ZeroDivisionError else Inr (a / b))"

text \<open>
  \<^verbatim>\<open>
  def cosine_similarity(a, b):
      dot = sum(x * y for x, y in zip(a, b))
      norm_a = sum(x * x for x in a) ** 0.5
      norm_b = sum(x * x for x in b) ** 0.5
      return dot / (norm_a * norm_b) if norm_a and norm_b else 0
  \<close>
\<close>

definition cosine_similarity :: "real list \<Rightarrow> real list \<Rightarrow> py_exc + real" where
  "cosine_similarity a b =
     (let dot = sum_list (map (\<lambda>(x, y). x * y) (zip a b));
          norm_a = sqrt (sum_list (map (\<lambda>x. x * x) a));
          norm_b = sqrt (sum_list (map (\<lambda>x. x * x) b))
      in if norm_a \<noteq> 0 \<and> norm_b \<noteq> 0 then py_div dot (norm_a * norm_b) else Inr 0)"

record RetrieveMemoryRequest =
  rm_conversation_id :: pystr
  rm_query :: pystr
  rm_limit :: int

record MemoryView =
  v_id :: pystr
  v_content :: pystr
  v_type :: pystr
  v_importance :: real
  v_relevance_score :: "real option"

text \<open>The loop that fetches the records; an id whose record is gone is skipped.\<close>

fun fetch_memories ::
  "(nat \<Rightarrow> bool) \<Rightarrow> pystr list \<Rightarrow> MemoryData list \<Rightarrow> mem_state
     \<Rightarrow> (py_exc + MemoryData list) \<times> mem_state" where
  "fetch_memories conn [] memories st = (Inr memories, st)"
| "fetch_memories conn (mid # mids) memories st =
     (case redis_get conn (memory_key mid) st of
        (Inl e, st') \<Rightarrow> (Inl e, st')
      | (Inr None, st') \<Rightarrow> fetch_memories conn mids memories st'
      | (Inr (Some memory), st') \<Rightarrow> fetch_memories conn mids (memories @ [memory]) st')"

text \<open>
  The loop that gives every memory its relevance: the cosine similarity to the
  query when the memory has a non-empty embedding, its importance otherwise.
\<close>

fun score_memories ::
  "real list \<Rightarrow> MemoryData list \<Rightarrow> py_exc + (MemoryData \<times> real option) list" where
  "score_memories q [] = Inr []"
| "score_memories q (memory # rest) =
     (case (case m_embedding memory of
              None \<Rightarrow> Inr (m_importance memory)
            | Some [] \<Rightarrow> Inr (m_importance memory)
            | Some (x # xs) \<Rightarrow> cosine_similarity q (x # xs)) of
        Inl e \<Rightarrow> Inl e
      | Inr r \<Rightarrow>
          (case score_memories q rest of
             Inl e \<Rightarrow> Inl e
           | Inr xs \<Rightarrow> Inr ((memory, Some r) # xs)))"

text \<open>
  \<open>list.sort(key=..., reverse=True)\<close>: descending and stable, which is the
  stable ascending sort by the negated key.
\<close>

definition sort_desc :: "('a \<Rightarrow> real) \<Rightarrow> 'a list \<Rightarrow> 'a list" where
  "sort_desc k xs = sort_key (\<lambda>x. - k x) xs"

text \<open>The slice \<open>xs[:n]\<close>; a negative \<open>n\<close> counts from the end.\<close>

definition py_take :: "int \<Rightarrow> 'a list \<Rightarrow> 'a list" where
  "py_take n xs = (if 0 \<le> n then take (nat n) xs else take (length xs - nat (- n)) xs)"

definition view_of :: "MemoryData \<times> real option \<Rightarrow> MemoryView" where
  "view_of m =
     \<lparr>v_id = m_id (fst m), v_content = m_content (fst m), v_type = m_type (fst m),
      v_importance = m_importance (fst m), v_relevance_score = snd m\<rparr>"

text \<open>\<open>m.get("relevance_score", 0)\<close>\<close>

definition relevance_key :: "MemoryData \<times> real option \<Rightarrow> real" where
  "relevance_key m = (case snd m of None \<Rightarrow> 0 | Some r \<Rightarrow> r)"

text \<open>
  The handler. The memories are ranked by relevance when the query has a
  non-empty embedding, and by importance otherwise.
\<close>

definition retrieve_memories ::
  "mem_env \<Rightarrow> RetrieveMemoryRequest \<Rightarrow> mem_state \<Rightarrow> (http_error + MemoryView list) \<times> mem_state" where
  "retrieve_memories env request st =
     (case redis_client env of
        None \<Rightarrow> (Inl (HTTP 503), st)
      | Some conn \<Rightarrow>
          (case smembers conn (index_key (rm_conversation_id request)) st of
             (Inl e, st1) \<Rightarrow> (Inl (HTTP 500), st1)
           | (Inr memory_ids, st1) \<Rightarrow>
               if memory_ids = [] then (Inr [], st1)
               else
                 (case fetch_memories conn memory_ids [] st1 of
                    (Inl e, st2) \<Rightarrow> (Inl (HTTP 500), st2)
                  | (Inr memories, st2) \<Rightarrow>
                      (case get_embedding env (rm_query request) st2 of
                         (Some (x # xs), st3) \<Rightarrow>
                           (case score_memories (x # xs) memories of
                              Inl e \<Rightarrow> (Inl (HTTP 500), st3)
                            | Inr scored \<Rightarrow>
                                (Inr (map view_of
                                   (py_take (rm_limit request)
                                      (sort_desc relevance_key scored))), st3))
                       | (_, st3) \<Rightarrow>
                           (Inr (map view_of
                              (py_take (rm_limit request)
                                 (sort_desc (\<lambda>m. m_importance (fst m))
                                    (map (\<lambda>m. (m, None)) memories)))), st3)))))"

subsection \<open>\<open>clear_memories\<close> and \<open>get_memory_summary\<close>\<close>

fun delete_memories ::
  "(nat \<Rightarrow> bool) \<Rightarrow> pystr list \<Rightarrow> mem_state \<Rightarrow> (py_exc + unit) \<times> mem_state" where
  "delete_memories conn [] st = (Inr (), st)"
| "delete_memories conn (mid # mids) st =
     (case redis_delete conn (memory_key mid) st of
        (Inl e, st') \<Rightarrow> (Inl e, st')
      | (Inr u, st') \<Rightarrow> delete_memories conn mids st')"

text \<open>The handler returns the value of \<open>cleared\<close>.\<close>

definition clear_memories ::
  "mem_env \<Rightarrow> pystr \<Rightarrow> mem_state \<Rightarrow> (http_error + nat) \<times> mem_state" where
  "clear_memories env conversation_id st =
     (case redis_client env of
        None \<Rightarrow> (Inl (HTTP 503), st)
      | Some conn \<Rightarrow>
          (case smembers conn (index_key conversation_id) st of
             (Inl e, st1) \<Rightarrow> (Inl (HTTP 500), st1)
           | (Inr memory_ids, st1) \<Rightarrow>
               (case delete_memories conn memory_ids st1 of
                  (Inl e, st2) \<Rightarrow> (Inl (HTTP 500), st2)
                | (Inr u, st2) \<Rightarrow>
                    (case redis_delete conn (index_key conversation_id) st2 of
                       (Inl e, st3) \<Rightarrow> (Inl (HTTP 500), st3)
                     | (Inr u, st3) \<Rightarrow> (Inr (length memory_ids), st3)))))"

record MemorySummary =
  s_conversation_id :: pystr
  total_memories :: nat

definition get_memory_summary ::
  "mem_env \<Rightarrow> pystr \<Rightarrow> mem_state \<Rightarrow> (http_error + MemorySummary) \<times> mem_state" where
  "get_memory_summary env conversation_id st =
     (case redis_client env of
        None \<Rightarrow> (Inl (HTTP 503), st)
      | Some conn \<Rightarrow>
          (case smembers conn (index_key conversation_id) st of
             (Inl e, st1) \<Rightarrow> (Inl (HTTP 500), st1)
           | (Inr memory_ids, st1) \<Rightarrow>
               (Inr \<lparr>s_conversation_id = conversation_id,
                     total_memories = length memory_ids\<rparr>, st1)))"

subsection \<open>Notions and sample inputs used in the statements\<close>

text \<open>
  The members of the index set of a conversation; a key that does not exist is
  the empty set, and \<open>None\<close> says that the key holds something else.
\<close>

definition index_members :: "mem_state \<Rightarrow> pystr \<Rightarrow> pystr list option" where
  "index_members st conversation_id =
     (case store st (index_key conversation_id) of
        None \<Rightarrow> Some []
      | Some (RSet ms, t) \<Rightarrow> Some ms
      | Some (RString v, t) \<Rightarrow> None)"

text \<open>The dot product and the Euclidean norm, by index.\<close>

definition dot_product :: "real list \<Rightarrow> real list \<Rightarrow> real" where
  "dot_product a b = (\<Sum>i<length a. a ! i * b ! i)"

definition vec_norm :: "real list \<Rightarrow> real" where
  "vec_norm a = sqrt (\<Sum>i<length a. (a ! i)\<^sup>2)"

definition always_up :: "nat \<Rightarrow> bool" where
  "always_up k = True"

definition sample_hash :: "pystr \<Rightarrow> int" where
  "sample_hash s = int (length s) - 20"

definition sample_embedder :: "nat \<Rightarrow> pystr \<Rightarrow> real list option" where
  "sample_embedder k text = (if k = 0 then Some [1, 0] else None)"

definition sample_mem_env :: mem_env where
  "sample_mem_env =
     \<lparr>redis_client = Some always_up, openai_client = Some sample_embedder,
      py_hash = sample_hash, short_term_ttl = 3600\<rparr>"

definition empty_mem_state :: mem_state where
  "empty_mem_state = \<lparr>store = (\<lambda>k. None), redis_ops = 0, embed_calls = 0\<rparr>"

definition sample_store_request :: StoreMemoryRequest where
  "sample_store_request =
     \<lparr>sm_conversation_id = ustr ''c1'', sm_content = ustr ''likes tea'',
      sm_memory_type = ustr ''fact'', sm_importance = 1 / 2\<rparr>"

definition two_ids_state :: mem_state where
  "two_ids_state =
     \<lparr>store = (\<lambda>k. None)
        (index_key (ustr ''c1'') \<mapsto> (RSet [ustr ''c1:7'', ustr ''c1:8''], Some 86400),
         memory_key (ustr ''c1:7'') \<mapsto>
           (RString \<lparr>m_id = ustr ''c1:7'', m_conversation_id = ustr ''c1'',
                     m_content = ustr ''likes tea'', m_type = ustr ''fact'',
                     m_importance = 1 / 2, m_embedding = None\<rparr>, Some 3600)),
      redis_ops = 0, embed_calls = 0\<rparr>"

section \<open>AI orchestration service (routes/chat.py)\<close>

subsection \<open>Requests, responses and the services that are called\<close>

record ChatRequest =
  conversation_id :: pystr
  message :: pystr
  user_id :: pystr

record chat_metadata =
  model :: pystr
  prompt_tokens :: nat
  completion_tokens :: nat

record ChatResponse =
  response_content :: pystr
  metadata :: chat_metadata

text \<open>A message of the conversation history, and a message sent to the model.\<close>

record history_message =
  role :: pystr
  text_of :: pystr

type_synonym claude_message = "pystr \<times> pystr"

record llm_request =
  system_prompt :: pystr
  claude_messages :: "claude_message list"

text \<open>
  The dict that the moderation service answers with: the value of \<open>passed\<close>
  (\<open>None\<close> when the key is missing) and the flags (empty when missing).
\<close>

record verdict =
  verdict_passed :: "bool option"
  verdict_flags :: "ModerationFlag list"

text \<open>
  The answers of the collaborators. An HTTP call either fails with
  \<open>httpx.RequestError\<close> or yields a status code and a body; the bodies are
  taken to be well-formed JSON of the expected shape, of which only the parts
  that the code reads are kept.
\<close>

datatype mod_reply = ModRequestError | ModResponse nat "verdict option"

datatype conv_reply = ConvRequestError | ConvResponse nat bool "pystr option"

datatype msgs_reply = MsgsRequestError | MsgsResponse "history_message list"

datatype mem_reply = MemRequestError | MemResponse nat "pystr list"

text \<open>
  What \<open>client.messages.create\<close> returns: the text of the first content block
  (\<open>None\<close> when there is none), the model name and the token counts.
\<close>

record llm_response =
  first_text :: "pystr option"
  response_model :: pystr
  input_tokens :: nat
  output_tokens :: nat

datatype create_reply = CreateRaises | Created llm_response

text \<open>
  What \<open>client.messages.stream\<close> does: entering the \<open>with\<close> block raises
  before any text; or the stream hands out the texts of the list and then ends,
  after which leaving the \<open>with\<close> block either goes well or raises; or it
  raises while the texts are being read.
\<close>

datatype stream_end = Ends | EndsCloseRaises | Breaks

datatype stream_reply = StreamRaises | StreamTexts "pystr list" stream_end

record anthropic_client =
  messages_create :: "nat \<Rightarrow> llm_request \<Rightarrow> create_reply"
  messages_stream :: "nat \<Rightarrow> llm_request \<Rightarrow> stream_reply"

text \<open>
  The calls that leave the service are recorded in order; a collaborator may
  answer every call differently and is given the number of earlier calls.
\<close>

datatype ext_call =
    ModerationCall pystr
  | ConversationGet pystr
  | MessagesGet pystr
  | MemoryRetrieve pystr pystr
  | LLMCreate llm_request
  | LLMStream llm_request

type_synonym trace = "ext_call list"

record chat_env =
  client :: "anthropic_client option"
  claude_model :: pystr
  moderation_service :: "nat \<Rightarrow> pystr \<Rightarrow> mod_reply"
  chat_service_conversation :: "nat \<Rightarrow> pystr \<Rightarrow> conv_reply"
  chat_service_messages :: "nat \<Rightarrow> pystr \<Rightarrow> msgs_reply"
  memory_service :: "nat \<Rightarrow> pystr \<Rightarrow> pystr \<Rightarrow> mem_reply"

text \<open>
  The \<open>HTTPException\<close>s of the two handlers. \<open>chat\<close> reports blocked content
  with the code \<open>CONTENT_BLOCKED\<close> and the flags, \<open>chat_stream\<close> with a plain
  message; both with status 400.
\<close>

datatype chat_error =
    ServiceUnavailable
  | ContentBlocked "ModerationFlag list"
  | MessageBlocked
  | NotFound
  | ContextFetchFailed
  | AIServiceError

fun status_code :: "chat_error \<Rightarrow> nat" where
  "status_code ServiceUnavailable = 503"
| "status_code (ContentBlocked fl) = 400"
| "status_code MessageBlocked = 400"
| "status_code NotFound = 404"
| "status_code ContextFetchFailed = 500"
| "status_code AIServiceError = 500"

subsection \<open>Gathering the context\<close>

record conv_context =
  context_messages :: "history_message list"
  character_prompt :: "pystr option"

definition get_conversation_context ::
  "chat_env \<Rightarrow> pystr \<Rightarrow> trace \<Rightarrow> (chat_error + conv_context) \<times> trace" where
  "get_conversation_context env cid tr =
     (let tr1 = tr @ [ConversationGet cid]
      in case chat_service_conversation env (length tr) cid of
           ConvRequestError \<Rightarrow> (Inl ContextFetchFailed, tr1)
         | ConvResponse status success prompt \<Rightarrow>
             if status \<noteq> 200 then (Inl NotFound, tr1)
             else if \<not> success then (Inl NotFound, tr1)
             else
               (let tr2 = tr1 @ [MessagesGet cid]
                in case chat_service_messages env (length tr1) cid of
                     MsgsRequestError \<Rightarrow> (Inl ContextFetchFailed, tr2)
                   | MsgsResponse msgs \<Rightarrow>
                       (Inr \<lparr>context_messages = msgs, character_prompt = prompt\<rparr>, tr2)))"

definition get_memory_context :: "chat_env \<Rightarrow> pystr \<Rightarrow> pystr \<Rightarrow> trace \<Rightarrow> pystr list \<times> trace" where
  "get_memory_context env cid msg tr =
     (let tr1 = tr @ [MemoryRetrieve cid msg]
      in case memory_service env (length tr) cid msg of
           MemRequestError \<Rightarrow> ([], tr1)
         | MemResponse status memories \<Rightarrow> (if status = 200 then memories else [], tr1))"

text \<open>\<open>{"passed": True, "flags": []}\<close>, the answer when moderation is unavailable.\<close>

definition allow :: verdict where
  "allow = \<lparr>verdict_passed = Some True, verdict_flags = []\<rparr>"

definition check_moderation :: "chat_env \<Rightarrow> pystr \<Rightarrow> trace \<Rightarrow> verdict \<times> trace" where
  "check_moderation env c tr =
     (let tr1 = tr @ [ModerationCall c]
      in case moderation_service env (length tr) c of
           ModRequestError \<Rightarrow> (allow, tr1)
         | ModResponse status body \<Rightarrow>
             if status = 200
             then (case body of
                     None \<Rightarrow> (\<lparr>verdict_passed = Some True, verdict_flags = []\<rparr>, tr1)
                   | Some v \<Rightarrow> (v, tr1))
             else (allow, tr1))"

text \<open>\<open>moderation.get("passed", True)\<close>\<close>

definition get_passed :: "verdict \<Rightarrow> bool" where
  "get_passed v = (case verdict_passed v of None \<Rightarrow> True | Some b \<Rightarrow> b)"

subsection \<open>\<open>build_messages\<close>\<close>

fun join :: "pystr \<Rightarrow> pystr list \<Rightarrow> pystr" where
  "join sep [] = []"
| "join sep [x] = x"
| "join sep (x # y # ys) = x @ sep @ join sep (y # ys)"

definition history_role :: "history_message \<Rightarrow> pystr" where
  "history_role msg = (if role msg = ustr ''USER'' then ustr ''user'' else ustr ''assistant'')"

definition build_messages ::
  "history_message list \<Rightarrow> pystr \<Rightarrow> pystr list \<Rightarrow> claude_message list" where
  "build_messages msgs user_message memories =
     (let memory_context =
            (if memories \<noteq> []
             then [10, 10] @ ustr ''Relevant context from previous conversations:'' @ [10]
                  @ join [10] (map (\<lambda>m. ustr ''- '' @ m) memories)
             else [])
      in map (\<lambda>msg. (history_role msg, text_of msg)) msgs
         @ [(ustr ''user'', user_message @ memory_context)])"

definition default_system_prompt :: pystr where
  "default_system_prompt = ustr ''You are a helpful AI assistant.''"

definition refusal :: pystr where
  "refusal = ustr ''I apologize, but I cannot provide that response.''"

subsection \<open>\<open>chat\<close>\<close>

definition chat :: "chat_env \<Rightarrow> ChatRequest \<Rightarrow> trace \<Rightarrow> (chat_error + ChatResponse) \<times> trace" where
  "chat env request tr =
     (case client env of
        None \<Rightarrow> (Inl ServiceUnavailable, tr)
      | Some cl \<Rightarrow>
          (case check_moderation env (message request) tr of
             (moderation, tr1) \<Rightarrow>
               if \<not> get_passed moderation
               then (Inl (ContentBlocked (verdict_flags moderation)), tr1)
               else
                 (case get_conversation_context env (conversation_id request) tr1 of
                    (Inl e, tr2) \<Rightarrow> (Inl e, tr2)
                  | (Inr ctx, tr2) \<Rightarrow>
                      (case get_memory_context env (conversation_id request)
                              (message request) tr2 of
                         (memories, tr3) \<Rightarrow>
                           (let system =
                                  (case character_prompt ctx of
                                     None \<Rightarrow> default_system_prompt
                                   | Some p \<Rightarrow> p);
                                req = \<lparr>system_prompt = system,
                                       claude_messages =
                                         build_messages (context_messages ctx)
                                           (message request) memories\<rparr>;
                                tr4 = tr3 @ [LLMCreate req]
                            in case messages_create cl (length tr3) req of
                                 CreateRaises \<Rightarrow> (Inl AIServiceError, tr4)
                               | Created response \<Rightarrow>
                                   (let generated =
                                          (case first_text response of
                                             None \<Rightarrow> []
                                           | Some t \<Rightarrow> t)
                                    in case check_moderation env generated tr4 of
                                         (response_moderation, tr5) \<Rightarrow>
                                           (Inr \<lparr>response_content =
                                                   (if \<not> get_passed response_moderation
                                                    then refusal else generated),
                                                 metadata =
                                                   \<lparr>model = response_model response,
                                                    prompt_tokens = input_tokens response,
                                                    completion_tokens = output_tokens response\<rparr>\<rparr>,
                                            tr5)))))))"

subsection \<open>\<open>chat_stream\<close>\<close>

text \<open>
  The events of the stream: \<open>chunk\<close> with a piece of text, \<open>done\<close> with the
  whole text and the model name, \<open>error\<close> with its message.
\<close>

datatype sse_event = Chunk pystr | Done pystr pystr | Error pystr

fun event_name :: "sse_event \<Rightarrow> pystr" where
  "event_name (Chunk t) = ustr ''chunk''"
| "event_name (Done t m) = ustr ''done''"
| "event_name (Error e) = ustr ''error''"

text \<open>
  The \<open>for\<close> loop of \<open>generate\<close>: every text is added to \<open>full_content\<close> and
  yielded as a chunk. The result is the text gathered and the events yielded.
  After the loop \<open>done\<close> is yielded, still inside the \<open>with\<close> block and the
  \<open>try\<close>; the handler of the \<open>try\<close> yields \<open>error\<close> for every exception,
  whether it comes from entering the block, from reading the texts, or from
  leaving the block after \<open>done\<close>.
\<close>

fun stream_loop :: "pystr list \<Rightarrow> pystr \<Rightarrow> sse_event list \<Rightarrow> pystr \<times> sse_event list" where
  "stream_loop [] full_content events = (full_content, events)"
| "stream_loop (t # ts) full_content events =
     stream_loop ts (full_content @ t) (events @ [Chunk t])"

definition generate :: "chat_env \<Rightarrow> anthropic_client \<Rightarrow> llm_request \<Rightarrow> trace \<Rightarrow> sse_event list \<times> trace" where
  "generate env cl req tr =
     (let tr1 = tr @ [LLMStream req]
      in case messages_stream cl (length tr) req of
           StreamRaises \<Rightarrow> ([Error (ustr ''AI service unavailable'')], tr1)
         | StreamTexts texts ending \<Rightarrow>
             (case stream_loop texts [] [] of
                (full_content, events) \<Rightarrow>
                  (case ending of
                     Breaks \<Rightarrow> (events @ [Error (ustr ''AI service unavailable'')], tr1)
                   | Ends \<Rightarrow> (events @ [Done full_content (claude_model env)], tr1)
                   | EndsCloseRaises \<Rightarrow>
                       (events @ [Done full_content (claude_model env)]
                          @ [Error (ustr ''AI service unavailable'')], tr1))))"

definition chat_stream ::
  "chat_env \<Rightarrow> ChatRequest \<Rightarrow> trace \<Rightarrow> (chat_error + sse_event list) \<times> trace" where
  "chat_stream env request tr =
     (case client env of
        None \<Rightarrow> (Inl ServiceUnavailable, tr)
      | Some cl \<Rightarrow>
          (case check_moderation env (message request) tr of
             (moderation, tr1) \<Rightarrow>
               if \<not> get_passed moderation
               then (Inl MessageBlocked, tr1)
               else
                 (case get_conversation_context env (conversation_id request) tr1 of
                    (Inl e, tr2) \<Rightarrow> (Inl e, tr2)
                  | (Inr ctx, tr2) \<Rightarrow>
                      (case get_memory_context env (conversation_id request)
                              (message request) tr2 of
                         (memories, tr3) \<Rightarrow>
                           (let system =
                                  (case character_prompt ctx of
                                     None \<Rightarrow> default_system_prompt
                                   | Some p \<Rightarrow> p);
                                req = \<lparr>system_prompt = system,
                                       claude_messages =
                                         build_messages (context_messages ctx)
                                           (message request) memories\<rparr>
                            in case generate env cl req tr3 of
                                 (events, tr4) \<Rightarrow> (Inr events, tr4))))))"

subsection \<open>Notions and sample inputs used in the statements\<close>

definition is_generation :: "ext_call \<Rightarrow> bool" where
  "is_generation c = (case c of LLMCreate r \<Rightarrow> True | LLMStream r \<Rightarrow> True | _ \<Rightarrow> False)"

text \<open>The request that both handlers send to the model.\<close>

definition request_for :: "conv_context \<Rightarrow> pystr \<Rightarrow> pystr list \<Rightarrow> llm_request" where
  "request_for ctx user_message memories =
     \<lparr>system_prompt =
        (case character_prompt ctx of None \<Rightarrow> default_system_prompt | Some p \<Rightarrow> p),
      claude_messages = build_messages (context_messages ctx) user_message memories\<rparr>"

text \<open>\<open>response.content[0].text if response.content else ""\<close>\<close>

definition generated_text :: "llm_response \<Rightarrow> pystr" where
  "generated_text response = (case first_text response of None \<Rightarrow> [] | Some t \<Rightarrow> t)"

definition is_done :: "sse_event \<Rightarrow> bool" where
  "is_done e = (event_name e = ustr ''done'')"

definition is_error :: "sse_event \<Rightarrow> bool" where
  "is_error e = (event_name e = ustr ''error'')"

text \<open>
  A moderation service that objects to the text \<open>bad\<close> only, a chat service
  that knows every conversation, a memory service that is down, and a model
  that answers \<open>bad\<close>; its stream gives \<open>Hel\<close>, \<open>lo\<close> and ends when it is the
  fifth call of a request, and gives \<open>Hel\<close> and breaks otherwise. A second
  model gives \<open>Hel\<close>, \<open>lo\<close> and ends, and fails when the stream is closed.
\<close>

definition sample_moderation :: "nat \<Rightarrow> pystr \<Rightarrow> mod_reply" where
  "sample_moderation k c =
     (if c = ustr ''bad''
      then ModResponse 200 (Some \<lparr>verdict_passed = Some False, verdict_flags = [keyword_flag]\<rparr>)
      else ModResponse 200 (Some \<lparr>verdict_passed = Some True, verdict_flags = []\<rparr>))"

definition sample_conversation :: "nat \<Rightarrow> pystr \<Rightarrow> conv_reply" where
  "sample_conversation k cid = ConvResponse 200 True None"

definition sample_messages :: "nat \<Rightarrow> pystr \<Rightarrow> msgs_reply" where
  "sample_messages k cid = MsgsResponse []"

definition sample_memory :: "nat \<Rightarrow> pystr \<Rightarrow> pystr \<Rightarrow> mem_reply" where
  "sample_memory k cid q = MemRequestError"

definition sample_create :: "nat \<Rightarrow> llm_request \<Rightarrow> create_reply" where
  "sample_create k req =
     Created \<lparr>first_text = Some (ustr ''bad''), response_model = ustr ''m1'',
              input_tokens = 12, output_tokens = 3\<rparr>"

definition sample_stream :: "nat \<Rightarrow> llm_request \<Rightarrow> stream_reply" where
  "sample_stream k req =
     (if k = 4 then StreamTexts [ustr ''Hel'', ustr ''lo''] Ends
      else StreamTexts [ustr ''Hel''] Breaks)"

definition sample_client :: anthropic_client where
  "sample_client = \<lparr>messages_create = sample_create, messages_stream = sample_stream\<rparr>"

definition sample_chat_env :: chat_env where
  "sample_chat_env =
     \<lparr>client = Some sample_client, claude_model = ustr ''m1'',
      moderation_service = sample_moderation,
      chat_service_conversation = sample_conversation,
      chat_service_messages = sample_messages,
      memory_service = sample_memory\<rparr>"

definition closing_stream :: "nat \<Rightarrow> llm_request \<Rightarrow> stream_reply" where
  "closing_stream k req = StreamTexts [ustr ''Hel'', ustr ''lo''] EndsCloseRaises"

definition closing_client :: anthropic_client where
  "closing_client = \<lparr>messages_create = sample_create, messages_stream = closing_stream\<rparr>"

definition closing_chat_env :: chat_env where
  "closing_chat_env =
     \<lparr>client = Some closing_client, claude_model = ustr ''m1'',
      moderation_service = sample_moderation,
      chat_service_conversation = sample_conversation,
      chat_service_messages = sample_messages,
      memory_service = sample_memory\<rparr>"

definition hi_request :: ChatRequest where
  "hi_request = \<lparr>conversation_id = ustr ''c1'', message = ustr ''hi'', user_id = ustr ''u1''\<rparr>"

definition bad_request :: ChatRequest where
  "bad_request = \<lparr>conversation_id = ustr ''c1'', message = ustr ''bad'', user_id = ustr ''u1''\<rparr>"

section \<open>Properties of the content moderation service\<close>

subsection \<open>The keyword filter\<close>

lemmas rx_defs =
  check_keyword_filters_def BLOCKED_PATTERNS_def pattern_violence_def pattern_self_harm_def
  pattern_illegal_def pattern_personal_info_def ustr_def ascii_tables_def ascii_lower_def
  re_search_def is_space_def ascii_word_def word_before_def word_after_def spaces_def

text \<open>
  The bound on the rounds of \<open>\s+\<close> loses nothing: every round consumes a
  character, so any larger number of rounds finds the same end positions.
\<close>

lemma spaces_rounds_enough:
  assumes "length (snd p) < n" and "length (snd p) < m"
  shows "plus_iter (rx_step u Space) n p = plus_iter (rx_step u Space) m p"
proof -
  define f where "f = rx_step u Space"
  have step: "f q = (case snd q of [] \<Rightarrow> [] | x # xs \<Rightarrow> if is_space x then [(Some x, xs)] else [])"
    for q by (simp add: f_def)
  have "length (snd p) < n \<Longrightarrow> length (snd p) < m \<Longrightarrow> plus_iter f n p = plus_iter f m p"
  proof (induction n arbitrary: m p)
    case 0
    then show ?case by simp
  next
    case (Suc n)
    from Suc.prems obtain m' where m: "m = Suc m'"
      by (cases m) simp_all
    show ?case
    proof (cases "snd p")
      case Nil
      then show ?thesis by (simp add: m step)
    next
      case (Cons x xs)
      with Suc.prems m have a: "length (snd (Some x, xs)) < n" and b: "length (snd (Some x, xs)) < m'"
        by simp_all
      from Suc.IH [OF a b] Cons show ?thesis
        by (simp add: m step)
    qed
  qed
  with assms show ?thesis
    by (simp only: f_def)
qed

lemma spaces_more_rounds:
  assumes "length (snd p) < n"
  shows "plus_iter (rx_step u Space) n p = rx_step u spaces p"
proof -
  have "rx_step u spaces p = plus_iter (rx_step u Space) (Suc (length (snd p))) p"
    unfolding spaces_def by (rule rx_step.simps)
  with spaces_rounds_enough [OF assms, of "Suc (length (snd p))"] show ?thesis
    by simp
qed

lemma keyword_loop_eq:
  "keyword_loop u ps s acc = acc @ map (\<lambda>p. keyword_flag) (filter (\<lambda>p. re_search u p s) ps)"
  by (induction ps arbitrary: acc) simp_all

lemma check_keyword_filters_eq:
  "check_keyword_filters u c =
     map (\<lambda>p. keyword_flag) (filter (\<lambda>p. re_search u p (str_lower u c)) BLOCKED_PATTERNS)"
  by (simp add: check_keyword_filters_def keyword_loop_eq)

lemma is_high_keyword_flag: "is_high keyword_flag"
  by (simp add: is_high_def keyword_flag_def)

lemma keyword_high_iff: "list_ex is_high (check_keyword_filters u c) = matches_blocked u c"
  by (auto simp: check_keyword_filters_eq matches_blocked_def list_ex_iff is_high_keyword_flag)

lemma keyword_empty_iff: "(check_keyword_filters u c = []) = (\<not> matches_blocked u c)"
  by (auto simp: check_keyword_filters_eq matches_blocked_def list_ex_iff filter_empty_conv)

lemma hello_not_blocked: "check_keyword_filters ascii_tables (ustr ''hello world'') = []"
  by (simp add: rx_defs)

lemma bomb_blocked: "check_keyword_filters ascii_tables (ustr ''how to make bomb'') = [keyword_flag]"
  by (simp add: rx_defs)

lemma a_bomb_not_blocked: "check_keyword_filters ascii_tables (ustr ''how to make a bomb'') = []"
  by (simp add: rx_defs)

lemma hello_no_match: "\<not> matches_blocked ascii_tables (ustr ''hello world'')"
  using hello_not_blocked keyword_empty_iff [of ascii_tables "ustr ''hello world''"] by simp

lemma bomb_match: "matches_blocked ascii_tables (ustr ''how to make bomb'')"
  using bomb_blocked keyword_empty_iff [of ascii_tables "ustr ''how to make bomb''"] by simp

text \<open>
  On ASCII content the filter consults the tables on ASCII only: whatever
  tables coincide with \<open>ascii_tables\<close> there give the same flags.
\<close>

lemma agree_match:
  "agree_on_ascii u \<Longrightarrow> pattern_char c \<Longrightarrow> x < 128 \<Longrightarrow>
   ignorecase_match u c x = ignorecase_match ascii_tables c x"
  by (simp add: agree_on_ascii_def ascii_tables_def)

lemma agree_word:
  "agree_on_ascii u \<Longrightarrow> x < 128 \<Longrightarrow> word_char u x = word_char ascii_tables x"
  by (simp add: agree_on_ascii_def ascii_tables_def)

lemma agree_lower:
  "agree_on_ascii u \<Longrightarrow> is_ascii s \<Longrightarrow> str_lower u s = str_lower ascii_tables s"
  by (simp add: agree_on_ascii_def ascii_tables_def)

lemma ascii_lower_ascii: "is_ascii s \<Longrightarrow> is_ascii (str_lower ascii_tables s)"
  by (auto simp: is_ascii_def ascii_tables_def ascii_lower_def list_all_iff)

lemma ascii_pos_step:
  "ascii_pos p \<Longrightarrow> snd p = x # xs \<Longrightarrow> x < 128 \<and> ascii_pos (Some x, xs)"
  by (simp add: ascii_pos_def is_ascii_def)

lemma plus_iter_agree:
  assumes "\<And>q. ascii_pos q \<Longrightarrow> f q = g q \<and> list_all ascii_pos (g q)"
  shows "ascii_pos p \<Longrightarrow> plus_iter f n p = plus_iter g n p \<and> list_all ascii_pos (plus_iter g n p)"
proof (induction n arbitrary: p)
  case 0
  show ?case by simp
next
  case (Suc n)
  from assms [OF Suc.prems] have fg: "f p = g p" and a: "list_all ascii_pos (g p)"
    by simp_all
  have "\<forall>q\<in>set (g p). plus_iter f n q = plus_iter g n q \<and> list_all ascii_pos (plus_iter g n q)"
    using a Suc.IH by (auto simp: list_all_iff)
  with a show ?case
    by (simp add: fg list_all_iff cong: map_cong)
qed

lemma rx_step_agree:
  assumes "agree_on_ascii u"
  shows "list_all pattern_char (rx_chars r) \<Longrightarrow> ascii_pos p \<Longrightarrow>
         rx_step u r p = rx_step ascii_tables r p \<and> list_all ascii_pos (rx_step ascii_tables r p)"
proof (induction r arbitrary: p)
  case Eps
  then show ?case by simp
next
  case (Chr c)
  then show ?case
    using agree_match [OF assms, of c] ascii_pos_step [of p]
    by (auto split: list.splits)
next
  case (Cls cs)
  have "list_ex (\<lambda>c. ignorecase_match u c x) cs = list_ex (\<lambda>c. ignorecase_match ascii_tables c x) cs"
    if "x < 128" for x
    using Cls.prems(1) agree_match [OF assms _ that] by (auto simp: list_ex_iff list_all_iff)
  with Cls.prems(2) show ?case
    using ascii_pos_step [of p] by (auto split: list.splits)
next
  case Space
  then show ?case
    using ascii_pos_step [of p] by (auto split: list.splits)
next
  case WordB
  then have "word_before u p = word_before ascii_tables p"
    and "word_after u p = word_after ascii_tables p"
    using agree_word [OF assms]
    by (auto simp: word_before_def word_after_def ascii_pos_def is_ascii_def
        split: option.splits list.splits)
  with WordB show ?case by simp
next
  case (Seq a b)
  from Seq.prems have ca: "list_all pattern_char (rx_chars a)"
    and cb: "list_all pattern_char (rx_chars b)"
    by simp_all
  from Seq.IH(1) [OF ca Seq.prems(2)]
  have a: "rx_step u a p = rx_step ascii_tables a p"
    and pa: "list_all ascii_pos (rx_step ascii_tables a p)"
    by simp_all
  have "\<forall>q\<in>set (rx_step ascii_tables a p).
      rx_step u b q = rx_step ascii_tables b q \<and> list_all ascii_pos (rx_step ascii_tables b q)"
    using pa Seq.IH(2) [OF cb] by (auto simp: list_all_iff)
  then show ?case
    by (simp add: a list_all_iff cong: map_cong)
next
  case (Alt a b)
  then show ?case by simp
next
  case (Opt a)
  then show ?case by simp
next
  case (Plus a)
  from Plus.prems have ca: "list_all pattern_char (rx_chars a)"
    by simp
  have "ascii_pos q \<Longrightarrow> rx_step u a q = rx_step ascii_tables a q
      \<and> list_all ascii_pos (rx_step ascii_tables a q)" for q
    using Plus.IH [OF ca] .
  from plus_iter_agree [of "rx_step u a" "rx_step ascii_tables a", OF this Plus.prems(2),
      of "Suc (length (snd p))"]
  show ?case by (simp only: rx_step.simps)
qed

lemma search_from_agree:
  assumes "agree_on_ascii u" and "list_all pattern_char (rx_chars r)"
  shows "ascii_pos (prev, s) \<Longrightarrow> search_from u r prev s = search_from ascii_tables r prev s"
proof (induction s arbitrary: prev)
  case Nil
  then show ?case
    using rx_step_agree [OF assms] by simp
next
  case (Cons x xs)
  from Cons.prems have "ascii_pos (Some x, xs)"
    by (simp add: ascii_pos_def is_ascii_def)
  with Cons show ?case
    using rx_step_agree [OF assms, of "(prev, x # xs)"] by simp
qed

lemma keyword_loop_agree:
  assumes "\<forall>p\<in>set ps. re_search u p s = re_search v p s"
  shows "keyword_loop u ps s acc = keyword_loop v ps s acc"
  using assms by (induction ps arbitrary: acc) simp_all

lemma blocked_pattern_chars:
  "\<forall>r\<in>set BLOCKED_PATTERNS. list_all pattern_char (rx_chars r)"
  by (simp add: BLOCKED_PATTERNS_def pattern_violence_def pattern_self_harm_def
      pattern_illegal_def pattern_personal_info_def spaces_def pattern_char_def)

lemma check_keyword_filters_agree:
  assumes "agree_on_ascii u" and "is_ascii c"
  shows "check_keyword_filters u c = check_keyword_filters ascii_tables c"
proof -
  let ?s = "str_lower ascii_tables c"
  have l: "str_lower u c = ?s"
    using assms by (rule agree_lower)
  have "ascii_pos (None, ?s)"
    using ascii_lower_ascii [OF assms(2)] by (simp add: ascii_pos_def)
  then have "\<forall>p\<in>set BLOCKED_PATTERNS. re_search u p ?s = re_search ascii_tables p ?s"
    using search_from_agree [OF assms(1)] blocked_pattern_chars
    by (simp add: re_search_def)
  then show ?thesis
    by (simp add: check_keyword_filters_def l keyword_loop_agree)
qed

lemma ascii_tables_agree: "agree_on_ascii ascii_tables"
  by (simp add: agree_on_ascii_def ascii_tables_def)

lemma a_bomb_ascii: "is_ascii (ustr ''how to make a bomb'')" "is_ascii (ustr ''hello world'')"
  by (simp_all add: is_ascii_def ustr_def)

lemma a_bomb_not_blocked_any_tables:
  assumes "agree_on_ascii u"
  shows "check_keyword_filters u (ustr ''how to make a bomb'') = []"
    and "check_keyword_filters u (ustr ''hello world'') = []"
  using check_keyword_filters_agree [OF assms] a_bomb_ascii a_bomb_not_blocked hello_not_blocked
  by simp_all

text \<open>Other everyday phrasings that the third pattern misses.\<close>

lemma other_phrasings_not_blocked:
  "check_keyword_filters ascii_tables (ustr ''how to make drugs'') = []"
  "check_keyword_filters ascii_tables (ustr ''how to build a weapon'') = []"
  by (simp_all add: rx_defs)

lemma sample_tables:
  "tables unconfigured_env = ascii_tables" "tables overscoring_env = ascii_tables"
  "tables failing_env = ascii_tables" "tables mild_env = ascii_tables"
  by (simp_all add: unconfigured_env_def overscoring_env_def failing_env_def mild_env_def)

subsection \<open>The single-item path\<close>

text \<open>
  Claim C1. Whenever the lower-cased content matches one of the blocked
  patterns, \<open>moderate_content\<close> answers \<open>passed = False\<close> with score 1, whatever
  the surroundings (and so whatever the classifier would have said), and the
  list of classifier calls is the one it started with: the classifier is not
  invoked. This holds for every content string and for whatever Unicode tables
  the runtime has.
\<close>

theorem moderate_blocked:
  assumes "matches_blocked (tables env) (content request)"
  shows "moderate_content env request calls =
           (\<lparr>passed = False, flags = check_keyword_filters (tables env) (content request), score = 1\<rparr>,
            calls)"
  using assms by (simp add: moderate_content_def keyword_high_iff)

theorem moderate_blocked_witness:
  "matches_blocked (tables overscoring_env) (content bomb_request) \<and>
   moderate_content overscoring_env bomb_request [] =
     (\<lparr>passed = False, flags = [keyword_flag], score = 1\<rparr>, [])"
proof -
  have m: "matches_blocked (tables overscoring_env) (content bomb_request)"
    by (simp add: bomb_request_def bomb_match sample_tables)
  from moderate_blocked [OF m, of "[]"] m show ?thesis
    by (simp add: bomb_request_def bomb_blocked sample_tables)
qed

text \<open>
  Claim C2. When no blocked pattern matches, the final score is the maximum of
  the classifier score and (0.5 if there are keyword flags, the classifier score
  otherwise); the threshold is the low one for \<open>strict\<close>, the medium one for
  \<open>moderate\<close>, the high one for \<open>relaxed\<close> and the medium one for every other
  level; and the content passes exactly when the final score is strictly below
  the threshold and no flag, keyword or classifier, has severity \<open>high\<close>.
\<close>

theorem moderate_unblocked:
  assumes "\<not> matches_blocked (tables env) (content request)"
  shows "moderate_content env request calls =
     (case check_ai_moderation env (content request) calls of
        ((ai_flags, ai_score), calls') \<Rightarrow>
          (let keyword_flags = check_keyword_filters (tables env) (content request);
               final_score = max ai_score (if keyword_flags \<noteq> [] then 1 / 2 else ai_score);
               threshold =
                 (if filter_level request = ustr ''strict''
                    then severity_threshold_low (settings env)
                  else if filter_level request = ustr ''moderate''
                    then severity_threshold_medium (settings env)
                  else if filter_level request = ustr ''relaxed''
                    then severity_threshold_high (settings env)
                  else severity_threshold_medium (settings env))
           in (\<lparr>passed = (final_score < threshold
                           \<and> \<not> list_ex is_high (keyword_flags @ ai_flags)),
                 flags = keyword_flags @ ai_flags,
                 score = final_score\<rparr>, calls')))"
  using assms
  by (simp add: moderate_content_def keyword_high_iff keyword_empty_iff threshold_for_def
      Let_def split: prod.splits)

lemma mild_classifier:
  "check_ai_moderation mild_env c calls =
     (([\<lparr>category = ustr ''spam'', severity = ustr ''low'', description = []\<rparr>], 1 / 4),
      calls @ [moderation_prompt c])"
  by (simp add: check_ai_moderation_def mild_env_def mild_client_def read_result_def
      read_flags_def attr_get_def iter_items_def make_flag_def str_field_def py_float_def
      ustr_def)

theorem moderate_unblocked_witness:
  "\<not> matches_blocked (tables mild_env) (content hello_request) \<and>
   moderate_content mild_env hello_request [] =
     (\<lparr>passed = True,
       flags = [\<lparr>category = ustr ''spam'', severity = ustr ''low'', description = []\<rparr>],
       score = 1 / 4\<rparr>,
      [moderation_prompt (ustr ''hello world'')])"
proof -
  have m: "\<not> matches_blocked (tables mild_env) (content hello_request)"
    by (simp add: hello_request_def hello_no_match sample_tables)
  have s: "settings mild_env = default_settings"
    by (simp add: mild_env_def)
  have l: "ustr ''moderate'' \<noteq> ustr ''strict''"
    by (simp add: ustr_def)
  have h: "\<not> is_high \<lparr>category = ustr ''spam'', severity = ustr ''low'', description = []\<rparr>"
    by (simp add: is_high_def ustr_def)
  from moderate_unblocked [OF m, of "[]"] m show ?thesis
    by (simp add: hello_request_def hello_not_blocked mild_classifier s l h
        default_settings_def sample_tables)
qed

lemma moderate_score_eq:
  "score (fst (moderate_content env request calls)) =
     (if matches_blocked (tables env) (content request) then 1
      else snd (fst (check_ai_moderation env (content request) calls)))"
proof (cases "matches_blocked (tables env) (content request)")
  case True
  then show ?thesis
    by (simp add: moderate_content_def keyword_high_iff)
next
  case False
  obtain ai_flags ai_score calls' where
    ai: "check_ai_moderation env (content request) calls = ((ai_flags, ai_score), calls')"
    by (metis prod.exhaust)
  with False show ?thesis
    by (simp add: moderate_content_def keyword_high_iff keyword_empty_iff)
qed

lemma check_ai_moderation_json:
  assumes "claude_client env = Some cl"
      and "cl (length calls) (moderation_prompt c) = JsonText (JObj d)"
      and "read_flags (JObj d) = Inr fl"
      and "map_of d (ustr ''score'') = Some v"
  shows "fst (check_ai_moderation env c calls) =
           (case py_float (float_of_str env) v of Inl e \<Rightarrow> ([], 0) | Inr r \<Rightarrow> (fl, r))"
  using assms
  by (simp add: check_ai_moderation_def read_result_def attr_get_def Let_def
      split: sum.splits)

text \<open>
  Claim C3, as amended. The score of the response is 1 when a blocked pattern
  matches and otherwise exactly the score that \<open>check_ai_moderation\<close> yields.
  When the classifier answers with a JSON object whose flags can be read, that
  score is the number under \<open>score\<close> as it stands, with no clamping: a float
  is taken over, an integer within the range of \<open>float\<close> is taken over, and an
  integer beyond that range makes \<open>float\<close> raise, which gives no flags and
  score 0. Hence the score of the response lies in [0, 1] whenever the score
  that \<open>check_ai_moderation\<close> yields does, and not otherwise unless a pattern
  matches.
\<close>

theorem moderate_score_value:
  "score (fst (moderate_content env request calls)) =
     (if matches_blocked (tables env) (content request) then 1
      else snd (fst (check_ai_moderation env (content request) calls))) \<and>
   (\<forall>cl d fl v.
      claude_client env = Some cl \<and>
      cl (length calls) (moderation_prompt (content request)) = JsonText (JObj d) \<and>
      read_flags (JObj d) = Inr fl \<and> map_of d (ustr ''score'') = Some v \<longrightarrow>
      (\<forall>r. v = JNum r \<longrightarrow>
         fst (check_ai_moderation env (content request) calls) = (fl, r)) \<and>
      (\<forall>i. v = JInt i \<and> \<bar>i\<bar> < float_int_bound \<longrightarrow>
         fst (check_ai_moderation env (content request) calls) = (fl, of_int i)) \<and>
      (\<forall>i. v = JInt i \<and> float_int_bound \<le> \<bar>i\<bar> \<longrightarrow>
         fst (check_ai_moderation env (content request) calls) = ([], 0))) \<and>
   (0 \<le> snd (fst (check_ai_moderation env (content request) calls)) \<and>
    snd (fst (check_ai_moderation env (content request) calls)) \<le> 1 \<longrightarrow>
      0 \<le> score (fst (moderate_content env request calls)) \<and>
      score (fst (moderate_content env request calls)) \<le> 1) \<and>
   (\<not> matches_blocked (tables env) (content request) \<and>
    1 < snd (fst (check_ai_moderation env (content request) calls)) \<longrightarrow>
      1 < score (fst (moderate_content env request calls)))"
proof (intro conjI allI impI)
  show "score (fst (moderate_content env request calls)) =
     (if matches_blocked (tables env) (content request) then 1
      else snd (fst (check_ai_moderation env (content request) calls)))"
    by (rule moderate_score_eq)
next
  fix cl d fl v r
  assume "claude_client env = Some cl \<and>
      cl (length calls) (moderation_prompt (content request)) = JsonText (JObj d) \<and>
      read_flags (JObj d) = Inr fl \<and> map_of d (ustr ''score'') = Some v"
    and "v = JNum r"
  then show "fst (check_ai_moderation env (content request) calls) = (fl, r)"
    using check_ai_moderation_json [of env cl calls "content request" d fl v]
    by (simp add: py_float_def)
next
  fix cl d fl v i
  assume "claude_client env = Some cl \<and>
      cl (length calls) (moderation_prompt (content request)) = JsonText (JObj d) \<and>
      read_flags (JObj d) = Inr fl \<and> map_of d (ustr ''score'') = Some v"
    and "v = JInt i \<and> \<bar>i\<bar> < float_int_bound"
  then show "fst (check_ai_moderation env (content request) calls) = (fl, of_int i)"
    using check_ai_moderation_json [of env cl calls "content request" d fl v]
    by (simp add: py_float_def)
next
  fix cl d fl v i
  assume "claude_client env = Some cl \<and>
      cl (length calls) (moderation_prompt (content request)) = JsonText (JObj d) \<and>
      read_flags (JObj d) = Inr fl \<and> map_of d (ustr ''score'') = Some v"
    and "v = JInt i \<and> float_int_bound \<le> \<bar>i\<bar>"
  then show "fst (check_ai_moderation env (content request) calls) = ([], 0)"
    using check_ai_moderation_json [of env cl calls "content request" d fl v]
    by (simp add: py_float_def)
next
  assume "0 \<le> snd (fst (check_ai_moderation env (content request) calls)) \<and>
    snd (fst (check_ai_moderation env (content request) calls)) \<le> 1"
  then show "0 \<le> score (fst (moderate_content env request calls))"
    and "score (fst (moderate_content env request calls)) \<le> 1"
    by (simp_all add: moderate_score_eq)
next
  assume "\<not> matches_blocked (tables env) (content request) \<and>
    1 < snd (fst (check_ai_moderation env (content request) calls))"
  then show "1 < score (fst (moderate_content env request calls))"
    by (simp add: moderate_score_eq)
qed

text \<open>
  The theorem at \<open>"hello world"\<close> with a classifier that answers
  \<open>{"flags": [...], "score": 0.25}\<close>, and at the blocked \<open>"how to make bomb"\<close>.
\<close>

lemma mild_reply:
  "mild_client n prompt =
     JsonText (JObj
       [(ustr ''flags'',
         JArr [JObj [(ustr ''category'', JStr (ustr ''spam'')),
                     (ustr ''severity'', JStr (ustr ''low''))]]),
        (ustr ''score'', JNum (1 / 4))])"
  by (simp add: mild_client_def)

theorem moderate_score_value_witness:
  "claude_client mild_env = Some mild_client \<and>
   \<not> matches_blocked (tables mild_env) (content hello_request) \<and>
   fst (check_ai_moderation mild_env (content hello_request) []) =
     ([\<lparr>category = ustr ''spam'', severity = ustr ''low'', description = []\<rparr>], 1 / 4) \<and>
   score (fst (moderate_content mild_env hello_request [])) = 1 / 4 \<and>
   matches_blocked (tables mild_env) (content bomb_request) \<and>
   score (fst (moderate_content mild_env bomb_request [])) = 1"
proof -
  let ?d = "[(ustr ''flags'',
         JArr [JObj [(ustr ''category'', JStr (ustr ''spam'')),
                     (ustr ''severity'', JStr (ustr ''low''))]]),
        (ustr ''score'', JNum (1 / 4))]"
  let ?fl = "[\<lparr>category = ustr ''spam'', severity = ustr ''low'', description = []\<rparr>]"
  have cl: "claude_client mild_env = Some mild_client"
    by (simp add: mild_env_def)
  have fl: "read_flags (JObj ?d) = Inr ?fl"
    by (simp add: read_flags_def attr_get_def iter_items_def make_flag_def str_field_def
        ustr_def)
  have sc: "map_of ?d (ustr ''score'') = Some (JNum (1 / 4))"
    by (simp add: ustr_def)
  have hyp: "claude_client mild_env = Some mild_client \<and>
      mild_client (length []) (moderation_prompt (content hello_request)) = JsonText (JObj ?d) \<and>
      read_flags (JObj ?d) = Inr ?fl \<and> map_of ?d (ustr ''score'') = Some (JNum (1 / 4))"
    using cl fl sc mild_reply by (intro conjI)
  have nm: "\<not> matches_blocked (tables mild_env) (content hello_request)"
    by (simp add: hello_request_def hello_no_match sample_tables)
  have m: "matches_blocked (tables mild_env) (content bomb_request)"
    by (simp add: bomb_request_def bomb_match sample_tables)
  note sc_eq = moderate_score_value [of mild_env, THEN conjunct1]
  note json = moderate_score_value [of mild_env hello_request "[]",
      THEN conjunct2, THEN conjunct1, rule_format, OF hyp, THEN conjunct1, rule_format, OF refl]
  from sc_eq [of hello_request "[]"] nm json
  have a: "score (fst (moderate_content mild_env hello_request [])) = 1 / 4"
    by simp
  from sc_eq [of bomb_request "[]"] m
  have b: "score (fst (moderate_content mild_env bomb_request [])) = 1"
    by simp
  from cl nm json a m b show ?thesis
    by simp
qed

text \<open>
  The claim as stated fails: a classifier answer with score 7 is passed on as
  the score of the response.
\<close>

lemma overscoring_classifier:
  "check_ai_moderation overscoring_env c calls = (([], 7), calls @ [moderation_prompt c])"
  by (simp add: check_ai_moderation_def overscoring_env_def overscoring_client_def
      read_result_def read_flags_def attr_get_def iter_items_def py_float_def
      float_int_bound_def ustr_def)

theorem moderate_score_above_one:
  "\<not> (0 \<le> score (fst (moderate_content overscoring_env hello_request [])) \<and>
      score (fst (moderate_content overscoring_env hello_request [])) \<le> 1)"
  by (simp add: moderate_content_def hello_request_def hello_not_blocked
      overscoring_classifier sample_tables)

text \<open>
  Claim C5. When no client is configured, the call raises, or the answer is not
  JSON, \<open>check_ai_moderation\<close> yields no flags and score 0, and
  \<open>moderate_content\<close> returns an ordinary response: the blocked one when a
  pattern matches, and otherwise one without flags and with score 0, which
  passes exactly when the threshold is positive. This holds for every content
  string and for whatever Unicode tables the runtime has.
\<close>

theorem classifier_failure_fails_open:
  assumes "classifier_unavailable env (content request) calls"
  shows "fst (check_ai_moderation env (content request) calls) = ([], 0) \<and>
         fst (moderate_content env request calls) =
           (if matches_blocked (tables env) (content request)
            then \<lparr>passed = False, flags = check_keyword_filters (tables env) (content request), score = 1\<rparr>
            else \<lparr>passed = (0 < threshold_for (settings env) (filter_level request)),
                  flags = [], score = 0\<rparr>)"
proof -
  from assms have ai: "fst (check_ai_moderation env (content request) calls) = ([], 0)"
    by (simp add: classifier_unavailable_def check_ai_moderation_def Let_def
        split: option.splits llm_reply.splits)
  show ?thesis
  proof (cases "matches_blocked (tables env) (content request)")
    case True
    with ai show ?thesis
      by (simp add: moderate_content_def keyword_high_iff)
  next
    case False
    then have kw: "check_keyword_filters (tables env) (content request) = []"
      by (simp add: keyword_empty_iff)
    obtain calls' where "check_ai_moderation env (content request) calls = (([], 0), calls')"
      using ai by (cases "check_ai_moderation env (content request) calls") auto
    with False kw ai show ?thesis
      by (simp add: moderate_content_def)
  qed
qed

theorem classifier_failure_fails_open_witness:
  "classifier_unavailable failing_env (content hello_request) [] \<and>
   fst (moderate_content failing_env hello_request []) =
     \<lparr>passed = True, flags = [], score = 0\<rparr> \<and>
   classifier_unavailable unconfigured_env (content bomb_request) [] \<and>
   fst (moderate_content unconfigured_env bomb_request []) =
     \<lparr>passed = False, flags = [keyword_flag], score = 1\<rparr>"
proof -
  have a: "classifier_unavailable failing_env (content hello_request) []"
    by (simp add: classifier_unavailable_def failing_env_def failing_client_def)
  have b: "classifier_unavailable unconfigured_env (content bomb_request) []"
    by (simp add: classifier_unavailable_def unconfigured_env_def)
  have t: "threshold_for (settings failing_env) (filter_level hello_request) = 6 / 10"
    by (simp add: threshold_for_def failing_env_def hello_request_def default_settings_def
        ustr_def)
  from classifier_failure_fails_open [OF a] classifier_failure_fails_open [OF b] a b t
  show ?thesis
    by (simp add: hello_request_def bomb_request_def hello_no_match bomb_match bomb_blocked
        sample_tables)
qed

subsection \<open>The batch path\<close>

lemma check_ai_moderation_calls:
  "snd (check_ai_moderation env c calls) =
     (case claude_client env of
        None \<Rightarrow> calls
      | Some cl \<Rightarrow> calls @ [moderation_prompt c])"
  by (simp add: check_ai_moderation_def Let_def
      split: option.splits llm_reply.splits sum.splits)

lemma batch_loop_results:
  "fst (batch_loop env cs rs calls) = rs @ fst (batch_loop env cs [] calls)"
proof (induction cs arbitrary: rs calls)
  case Nil
  show ?case by simp
next
  case (Cons c cs)
  obtain ai_flags ai_score calls' where
    ai: "check_ai_moderation env c calls = ((ai_flags, ai_score), calls')"
    by (metis prod.exhaust)
  show ?case
    using Cons.IH [of "rs @ [x]" calls' for x] Cons.IH [of "[x]" calls' for x]
    by (simp add: ai Let_def)
qed

lemma batch_loop_length:
  "length (fst (batch_loop env cs rs calls)) = length rs + length cs"
proof (induction cs arbitrary: rs calls)
  case Nil
  show ?case by simp
next
  case (Cons c cs)
  obtain ai_flags ai_score calls' where
    ai: "check_ai_moderation env c calls = ((ai_flags, ai_score), calls')"
    by (metis prod.exhaust)
  show ?case
    by (simp add: ai Let_def Cons.IH)
qed

lemma batch_calls_before_Suc:
  "batch_calls_before env (c # cs) calls (Suc i) =
     batch_calls_before env cs (snd (check_ai_moderation env c calls)) i"
  by (simp add: batch_calls_before_def check_ai_moderation_calls split: option.splits)

lemma batch_loop_nth:
  "i < length cs \<Longrightarrow>
   fst (batch_loop env cs [] calls) ! i =
     (case check_ai_moderation env (cs ! i) (batch_calls_before env cs calls i) of
        ((ai_flags, ai_score), calls') \<Rightarrow>
          \<lparr>passed = (ai_score < severity_threshold_medium (settings env)
                     \<and> \<not> list_ex is_high (check_keyword_filters (tables env) (cs ! i) @ ai_flags)),
            flags = check_keyword_filters (tables env) (cs ! i) @ ai_flags,
            score = ai_score\<rparr>)"
proof (induction cs arbitrary: calls i)
  case Nil
  then show ?case by simp
next
  case (Cons c cs)
  obtain ai_flags ai_score calls' where
    ai: "check_ai_moderation env c calls = ((ai_flags, ai_score), calls')"
    by (metis prod.exhaust)
  have step: "fst (batch_loop env (c # cs) [] calls) =
      \<lparr>passed = (ai_score < severity_threshold_medium (settings env)
                 \<and> \<not> list_ex is_high (check_keyword_filters (tables env) c @ ai_flags)),
        flags = check_keyword_filters (tables env) c @ ai_flags, score = ai_score\<rparr>
      # fst (batch_loop env cs [] calls')"
    using batch_loop_results [of env cs "[x]" calls' for x]
    by (simp add: ai Let_def)
  show ?case
  proof (cases i)
    case 0
    have "batch_calls_before env (c # cs) calls 0 = calls"
      by (simp add: batch_calls_before_def split: option.splits)
    with 0 step ai show ?thesis by simp
  next
    case (Suc j)
    with Cons.prems have j: "j < length cs" by simp
    have "batch_calls_before env (c # cs) calls (Suc j) = batch_calls_before env cs calls' j"
      by (simp add: batch_calls_before_Suc ai)
    with Suc step Cons.IH [OF j, of calls'] show ?thesis by simp
  qed
qed

lemma batch_calls_before_take:
  "i < 10 \<Longrightarrow>
   batch_calls_before env (take 10 contents) calls i = batch_calls_before env contents calls i"
  by (simp add: batch_calls_before_def min_def split: option.splits)

text \<open>
  What \<open>moderate_batch\<close> does in general: it returns one result for each of the
  first ten items, so \<open>min (length contents) 10\<close> results. The result of an item
  is made from its own keyword flags and its own classifier call: its score is
  the raw classifier score (no floor of 0.5), its flags are the keyword flags
  followed by the classifier flags, it passes exactly when the score is below
  the medium threshold and no flag is high, and therefore an item that matches
  a blocked pattern never passes, whatever the classifier does.
\<close>

lemma moderate_batch_results:
  "length (fst (moderate_batch env contents calls)) = min (length contents) 10 \<and>
   (\<forall>i < min (length contents) 10.
      case check_ai_moderation env (contents ! i) (batch_calls_before env contents calls i) of
        ((ai_flags, ai_score), calls') \<Rightarrow>
          score (fst (moderate_batch env contents calls) ! i) = ai_score \<and>
          flags (fst (moderate_batch env contents calls) ! i) =
            check_keyword_filters (tables env) (contents ! i) @ ai_flags \<and>
          passed (fst (moderate_batch env contents calls) ! i) =
            (ai_score < severity_threshold_medium (settings env) \<and>
             \<not> list_ex is_high (check_keyword_filters (tables env) (contents ! i) @ ai_flags)) \<and>
          (matches_blocked (tables env) (contents ! i) \<longrightarrow>
             \<not> passed (fst (moderate_batch env contents calls) ! i)))"
proof (intro conjI allI impI)
  show "length (fst (moderate_batch env contents calls)) = min (length contents) 10"
    by (simp add: moderate_batch_def batch_loop_length)
next
  fix i
  assume i: "i < min (length contents) 10"
  then have len: "i < length (take 10 contents)" and ten: "i < 10"
    by simp_all
  obtain ai_flags ai_score calls' where
    ai: "check_ai_moderation env (contents ! i) (batch_calls_before env contents calls i) =
           ((ai_flags, ai_score), calls')"
    by (metis prod.exhaust)
  have nth: "take 10 contents ! i = contents ! i"
    using ten by simp
  have r: "fst (moderate_batch env contents calls) ! i =
      \<lparr>passed = (ai_score < severity_threshold_medium (settings env)
                 \<and> \<not> list_ex is_high (check_keyword_filters (tables env) (contents ! i) @ ai_flags)),
        flags = check_keyword_filters (tables env) (contents ! i) @ ai_flags, score = ai_score\<rparr>"
    using batch_loop_nth [OF len, of env calls]
    by (simp add: moderate_batch_def nth batch_calls_before_take [OF ten] ai)
  have blocked: "matches_blocked (tables env) (contents ! i) \<Longrightarrow>
      list_ex is_high (check_keyword_filters (tables env) (contents ! i) @ ai_flags)"
    using keyword_high_iff [of "tables env" "contents ! i"] by (auto simp: list_ex_iff)
  show "case check_ai_moderation env (contents ! i)
               (batch_calls_before env contents calls i) of
          ((ai_flags, ai_score), calls') \<Rightarrow>
            score (fst (moderate_batch env contents calls) ! i) = ai_score \<and>
            flags (fst (moderate_batch env contents calls) ! i) =
              check_keyword_filters (tables env) (contents ! i) @ ai_flags \<and>
            passed (fst (moderate_batch env contents calls) ! i) =
              (ai_score < severity_threshold_medium (settings env) \<and>
               \<not> list_ex is_high (check_keyword_filters (tables env) (contents ! i) @ ai_flags)) \<and>
            (matches_blocked (tables env) (contents ! i) \<longrightarrow>
               \<not> passed (fst (moderate_batch env contents calls) ! i))"
    using blocked by (simp add: ai r)
qed

text \<open>
  At the batch \<open>["hello world", "how to make bomb"]\<close> with a classifier that
  finds nothing serious: two results, the second one failed.
\<close>

lemma moderate_batch_results_example:
  "length (fst (moderate_batch mild_env [ustr ''hello world'', ustr ''how to make bomb''] []))
     = 2 \<and>
   matches_blocked (tables mild_env) ([ustr ''hello world'', ustr ''how to make bomb''] ! 1) \<and>
   score (fst (moderate_batch mild_env [ustr ''hello world'', ustr ''how to make bomb''] [])
            ! 1) = 1 / 4 \<and>
   \<not> passed (fst (moderate_batch mild_env [ustr ''hello world'', ustr ''how to make bomb''] [])
               ! 1)"
proof -
  let ?cs = "[ustr ''hello world'', ustr ''how to make bomb'']"
  have m: "matches_blocked (tables mild_env) (?cs ! 1)"
    by (simp add: bomb_match sample_tables)
  have one: "(1::nat) < min (length ?cs) 10"
    by simp
  note all = moderate_batch_results [of mild_env ?cs "[]"]
  have len: "length (fst (moderate_batch mild_env ?cs [])) = min (length ?cs) 10"
    using all by (rule conjunct1)
  note item = all [THEN conjunct2, rule_format, OF one]
  have ai: "check_ai_moderation mild_env (?cs ! 1) (batch_calls_before mild_env ?cs [] 1)
     = (([\<lparr>category = ustr ''spam'', severity = ustr ''low'', description = []\<rparr>], 1 / 4),
      batch_calls_before mild_env ?cs [] 1 @ [moderation_prompt (?cs ! 1)])"
    by (rule mild_classifier)
  from item have "score (fst (moderate_batch mild_env ?cs []) ! 1) = 1 / 4
      \<and> (matches_blocked (tables mild_env) (?cs ! 1)
           \<longrightarrow> \<not> passed (fst (moderate_batch mild_env ?cs []) ! 1))"
    unfolding ai prod.case by (elim conjE) (intro conjI)
  with m len show ?thesis
    by simp
qed

text \<open>
  Claim C4. The claim wants the second result of
  \<open>moderate_batch(["hello world", "how to make a bomb"])\<close> to fail on the keyword
  filter, independent of the classifier. The code does not do that: in
  \<open>"how to make a bomb"\<close> the article stands between \<open>make\<close> and \<open>bomb\<close>, and
  the third pattern, which allows only white space there, does not match. With
  no classifier configured the second result has no flag and score 0, and
  passes.
\<close>

theorem moderate_batch_a_bomb_passes:
  "fst (moderate_batch unconfigured_env
         [ustr ''hello world'', ustr ''how to make a bomb''] []) ! 1 =
     \<lparr>passed = True, flags = [], score = 0\<rparr>"
proof -
  have ai: "check_ai_moderation unconfigured_env c calls = (([], 0), calls)" for c calls
    by (simp add: check_ai_moderation_def unconfigured_env_def)
  have st: "severity_threshold_medium (settings unconfigured_env) = 6 / 10"
    by (simp add: unconfigured_env_def default_settings_def)
  show ?thesis
    by (simp add: moderate_batch_def ai hello_not_blocked a_bomb_not_blocked st sample_tables)
qed

text \<open>
  The same holds for every surroundings without a classifier and with tables
  that coincide with \<open>ascii_tables\<close> on ASCII text.
\<close>

lemma moderate_batch_a_bomb_any_tables:
  assumes "agree_on_ascii (tables env)" and "claude_client env = None"
  shows "fst (moderate_batch env [ustr ''hello world'', ustr ''how to make a bomb''] calls) ! 1 =
     \<lparr>passed = (0 < severity_threshold_medium (settings env)), flags = [], score = 0\<rparr>"
proof -
  have ai: "check_ai_moderation env c cs = (([], 0), cs)" for c cs
    by (simp add: check_ai_moderation_def assms(2))
  show ?thesis
    by (simp add: moderate_batch_def ai a_bomb_not_blocked_any_tables [OF assms(1)])
qed

section \<open>Properties of the memory service\<close>

subsection \<open>Cosine similarity\<close>

lemma sum_list_by_index: "sum_list (map f xs) = (\<Sum>i<length xs. f (xs ! i))"
proof -
  have "sum_list (map f xs) = (\<Sum>i = 0..<length (map f xs). map f xs ! i)"
    by (rule sum_list_sum_nth)
  also have "\<dots> = (\<Sum>i<length xs. f (xs ! i))"
    by (simp add: atLeast0LessThan)
  finally show ?thesis .
qed

lemma norm_by_index: "sqrt (sum_list (map (\<lambda>x. x * x) a)) = vec_norm a"
  by (simp add: vec_norm_def sum_list_by_index power2_eq_square)

lemma dot_by_index:
  assumes "length a = length b"
  shows "sum_list (map (\<lambda>(x, y). x * y) (zip a b)) = dot_product a b"
proof -
  have "sum_list (map (\<lambda>(x, y). x * y) (zip a b))
          = (\<Sum>i<length (zip a b). (\<lambda>(x, y). x * y) (zip a b ! i))"
    by (rule sum_list_by_index)
  also have "\<dots> = (\<Sum>i<length a. a ! i * b ! i)"
    using assms by simp
  finally show ?thesis
    by (simp add: dot_product_def)
qed

lemma vec_norm_zero_vector:
  assumes "\<forall>x\<in>set a. x = 0"
  shows "vec_norm a = 0"
proof -
  have "(a ! i)\<^sup>2 = 0" if "i < length a" for i
    using assms that by simp
  then have "(\<Sum>i<length a. (a ! i)\<^sup>2) = 0"
    by simp
  then show ?thesis
    by (simp add: vec_norm_def)
qed

lemma cosine_similarity_eq:
  "cosine_similarity a b =
     (if vec_norm a \<noteq> 0 \<and> vec_norm b \<noteq> 0
      then Inr (sum_list (map (\<lambda>(x, y). x * y) (zip a b)) / (vec_norm a * vec_norm b))
      else Inr 0)"
  by (simp add: cosine_similarity_def norm_by_index py_div_def Let_def)

text \<open>
  Claim C6. \<open>cosine_similarity\<close> always returns a number, so the division never
  raises; it returns 0 as soon as one of the two vectors has norm zero, in
  particular when one or both are zero vectors; and for vectors of equal length
  with non-zero norms it returns the dot product divided by the product of the
  norms.
\<close>

theorem cosine_similarity_safe:
  "(\<exists>r. cosine_similarity a b = Inr r) \<and>
   (vec_norm a = 0 \<or> vec_norm b = 0 \<longrightarrow> cosine_similarity a b = Inr 0) \<and>
   ((\<forall>x\<in>set a. x = 0) \<or> (\<forall>y\<in>set b. y = 0) \<longrightarrow> cosine_similarity a b = Inr 0) \<and>
   (length a = length b \<and> vec_norm a \<noteq> 0 \<and> vec_norm b \<noteq> 0 \<longrightarrow>
      cosine_similarity a b = Inr (dot_product a b / (vec_norm a * vec_norm b)))"
proof (intro conjI impI)
  show "\<exists>r. cosine_similarity a b = Inr r"
    by (simp add: cosine_similarity_eq)
next
  assume "vec_norm a = 0 \<or> vec_norm b = 0"
  then show "cosine_similarity a b = Inr 0"
    by (auto simp: cosine_similarity_eq)
next
  assume "(\<forall>x\<in>set a. x = 0) \<or> (\<forall>y\<in>set b. y = 0)"
  then have "vec_norm a = 0 \<or> vec_norm b = 0"
    using vec_norm_zero_vector by blast
  then show "cosine_similarity a b = Inr 0"
    by (auto simp: cosine_similarity_eq)
next
  assume "length a = length b \<and> vec_norm a \<noteq> 0 \<and> vec_norm b \<noteq> 0"
  then show "cosine_similarity a b = Inr (dot_product a b / (vec_norm a * vec_norm b))"
    by (simp add: cosine_similarity_eq dot_by_index)
qed

theorem cosine_similarity_safe_witness:
  "vec_norm [0, 0] = 0 \<and>
   cosine_similarity [0, 0] [0, 0] = Inr 0 \<and>
   cosine_similarity [0, 0] [1, 2] = Inr 0 \<and>
   length [1, 0 :: real] = length [2, 0 :: real] \<and> vec_norm [1, 0] \<noteq> 0 \<and> vec_norm [2, 0] \<noteq> 0 \<and>
   cosine_similarity [1, 0] [2, 0] = Inr 1"
proof -
  have z: "\<forall>x\<in>set [0, 0 :: real]. x = 0"
    by simp
  have n0: "vec_norm [0, 0] = 0"
    by (simp add: vec_norm_def)
  have n1: "vec_norm [1, 0] = 1"
    by (simp add: vec_norm_def)
  have n2: "vec_norm [2, 0] = 2"
    by (simp add: vec_norm_def)
  have d: "dot_product [1, 0] [2, 0] = 2"
    by (simp add: dot_product_def)
  from cosine_similarity_safe [of "[0, 0]" "[0, 0]"] z
  have a: "cosine_similarity [0, 0] [0, 0] = Inr 0"
    by blast
  from cosine_similarity_safe [of "[0, 0]" "[1, 2]"] z
  have b: "cosine_similarity [0, 0] [1, 2] = Inr 0"
    by blast
  from cosine_similarity_safe [of "[1, 0]" "[2, 0]"] n1 n2 d
  have c: "cosine_similarity [1, 0] [2, 0] = Inr 1"
    by simp
  from a b c n0 n1 n2 show ?thesis
    by simp
qed

subsection \<open>Keys\<close>

lemma memory_key_not_index_key: "memory_key mid \<noteq> index_key cid"
  by (simp add: memory_key_def index_key_def ustr_def)

lemma index_key_not_memory_key: "index_key cid \<noteq> memory_key mid"
  by (simp add: memory_key_def index_key_def ustr_def)

lemma memory_key_inj: "(memory_key a = memory_key b) = (a = b)"
  by (simp add: memory_key_def)

lemma index_key_inj: "(index_key a = index_key b) = (a = b)"
  by (simp add: index_key_def)

subsection \<open>Clearing a conversation\<close>

lemma delete_memories_up:
  assumes "\<forall>k. conn k"
  shows "delete_memories conn mids st =
     (Inr (),
      st\<lparr>store := (\<lambda>k. if k \<in> memory_key ` set mids then None else store st k),
         redis_ops := redis_ops st + length mids\<rparr>)"
proof (induction mids arbitrary: st)
  case Nil
  show ?case by simp
next
  case (Cons mid mids)
  have "redis_delete conn (memory_key mid) st =
      (Inr (), sent (st\<lparr>store := (store st)(memory_key mid := None)\<rparr>))"
    using assms by (simp add: redis_delete_def)
  then show ?case
    by (simp add: Cons.IH sent_def fun_eq_iff)
qed

lemma smembers_up:
  assumes "\<forall>k. conn k" and "index_members st cid = Some ids"
  shows "smembers conn (index_key cid) st = (Inr ids, sent st)"
  using assms
  by (auto simp: smembers_def index_members_def split: option.splits rvalue.splits)

text \<open>
  Claim C7. With the store configured and answering every command, and with
  \<open>ids\<close> the members of the index set of the conversation, \<open>clear_memories\<close>
  returns \<open>cleared = length ids\<close>, the size of the index before anything was
  deleted and whether or not the records still existed; afterwards no indexed
  record and no index is left, and \<open>retrieve_memories\<close> for that conversation
  returns the empty list, for every query and limit.
\<close>

theorem clear_memories_clears:
  assumes "redis_client env = Some conn"
      and "\<forall>k. conn k"
      and "index_members st cid = Some ids"
  shows "\<exists>st'. clear_memories env cid st = (Inr (length ids), st') \<and>
           (\<forall>mid\<in>set ids. store st' (memory_key mid) = None) \<and>
           store st' (index_key cid) = None \<and>
           (\<forall>q lim. fst (retrieve_memories env
                           \<lparr>rm_conversation_id = cid, rm_query = q, rm_limit = lim\<rparr> st')
                      = Inr [])"
proof -
  let ?st1 = "sent st"
  let ?st2 = "?st1\<lparr>store := (\<lambda>k. if k \<in> memory_key ` set ids then None else store ?st1 k),
                    redis_ops := redis_ops ?st1 + length ids\<rparr>"
  let ?st3 = "sent (?st2\<lparr>store := (store ?st2)(index_key cid := None)\<rparr>)"
  have s1: "smembers conn (index_key cid) st = (Inr ids, ?st1)"
    using assms(2,3) by (rule smembers_up)
  have s2: "delete_memories conn ids ?st1 = (Inr (), ?st2)"
    using assms(2) by (rule delete_memories_up)
  have s3: "redis_delete conn (index_key cid) ?st2 = (Inr (), ?st3)"
    using assms(2) by (simp add: redis_delete_def)
  have run: "clear_memories env cid st = (Inr (length ids), ?st3)"
    by (simp add: clear_memories_def assms(1) s1 s2 s3)
  have recs: "\<forall>mid\<in>set ids. store ?st3 (memory_key mid) = None"
    by (simp add: sent_def memory_key_not_index_key)
  have idx: "store ?st3 (index_key cid) = None"
    by (simp add: sent_def)
  have empty: "index_members ?st3 cid = Some []"
    using idx by (simp add: index_members_def)
  have after: "fst (retrieve_memories env
                 \<lparr>rm_conversation_id = cid, rm_query = q, rm_limit = lim\<rparr> ?st3) = Inr []"
    for q lim
    using smembers_up [OF assms(2) empty]
    by (simp add: retrieve_memories_def assms(1))
  from run recs idx after show ?thesis
    by blast
qed

text \<open>
  The theorem at a conversation whose index names two records of which only
  one still exists. Before the call \<open>retrieve_memories\<close> finds that record.
\<close>

lemma two_ids_index:
  "index_members two_ids_state (ustr ''c1'') = Some [ustr ''c1:7'', ustr ''c1:8'']"
  by (simp add: index_members_def two_ids_state_def index_key_not_memory_key)

lemma two_ids_retrieve:
  "fst (retrieve_memories sample_mem_env
          \<lparr>rm_conversation_id = ustr ''c1'', rm_query = ustr ''tea'', rm_limit = 5\<rparr>
          two_ids_state) =
     Inr [\<lparr>v_id = ustr ''c1:7'', v_content = ustr ''likes tea'', v_type = ustr ''fact'',
           v_importance = 1 / 2, v_relevance_score = Some (1 / 2)\<rparr>]"
proof -
  have k: "memory_key (ustr ''c1:8'') \<noteq> memory_key (ustr ''c1:7'')"
    by (simp add: memory_key_inj ustr_def)
  show ?thesis
    by (simp add: retrieve_memories_def sample_mem_env_def smembers_def redis_get_def
        always_up_def two_ids_state_def sent_def memory_key_not_index_key
        index_key_not_memory_key k
        get_embedding_def sample_embedder_def sort_desc_def py_take_def view_of_def)
qed

theorem clear_memories_clears_witness:
  "redis_client sample_mem_env = Some always_up \<and> (\<forall>k. always_up k) \<and>
   index_members two_ids_state (ustr ''c1'') = Some [ustr ''c1:7'', ustr ''c1:8''] \<and>
   fst (clear_memories sample_mem_env (ustr ''c1'') two_ids_state) = Inr 2 \<and>
   fst (retrieve_memories sample_mem_env
          \<lparr>rm_conversation_id = ustr ''c1'', rm_query = ustr ''tea'', rm_limit = 5\<rparr>
          (snd (clear_memories sample_mem_env (ustr ''c1'') two_ids_state))) = Inr []"
proof -
  have a: "redis_client sample_mem_env = Some always_up"
    by (simp add: sample_mem_env_def)
  have b: "\<forall>k. always_up k"
    by (simp add: always_up_def)
  from clear_memories_clears [OF a b two_ids_index]
  obtain st' where
    "clear_memories sample_mem_env (ustr ''c1'') two_ids_state
       = (Inr (length [ustr ''c1:7'', ustr ''c1:8'']), st')"
    and "\<forall>q lim. fst (retrieve_memories sample_mem_env
           \<lparr>rm_conversation_id = ustr ''c1'', rm_query = q, rm_limit = lim\<rparr> st') = Inr []"
    by blast
  with a b two_ids_index show ?thesis
    by simp
qed

subsection \<open>Storing the same memory twice\<close>

lemma get_embedding_state:
  "store (snd (get_embedding env t st)) = store st \<and>
   redis_ops (snd (get_embedding env t st)) = redis_ops st"
  by (simp add: get_embedding_def split: option.splits)

lemma sadd_up:
  assumes "\<forall>k. conn k" and "index_members st cid = Some ids"
  shows "\<exists>st'. sadd conn (index_key cid) mid st = (Inr (), st') \<and>
     index_members st' cid = Some (if mid \<in> set ids then ids else ids @ [mid]) \<and>
     (\<forall>k. k \<noteq> index_key cid \<longrightarrow> store st' k = store st k) \<and>
     store st' (index_key cid) \<noteq> None \<and>
     redis_ops st' = Suc (redis_ops st) \<and> embed_calls st' = embed_calls st"
proof (cases "store st (index_key cid)")
  case None
  with assms have "ids = []"
    by (simp add: index_members_def)
  with None assms(1) show ?thesis
    by (simp add: sadd_def index_members_def sent_def)
next
  case (Some vt)
  with assms(2) obtain t where "store st (index_key cid) = Some (RSet ids, t)"
    by (cases vt; cases "fst vt") (auto simp: index_members_def)
  with assms(1) show ?thesis
    by (simp add: sadd_def index_members_def sent_def)
qed

lemma expire_up:
  assumes "\<forall>k. conn k" and "0 < ttl" and "index_members st cid = Some ids"
      and "store st (index_key cid) \<noteq> None"
  shows "\<exists>st'. expire conn (index_key cid) ttl st = (Inr (), st') \<and>
     store st' (index_key cid) = Some (RSet ids, Some ttl) \<and>
     (\<forall>k. k \<noteq> index_key cid \<longrightarrow> store st' k = store st k) \<and>
     redis_ops st' = Suc (redis_ops st) \<and> embed_calls st' = embed_calls st"
proof -
  from assms(3,4) obtain t where "store st (index_key cid) = Some (RSet ids, t)"
    by (cases "store st (index_key cid)")
      (auto simp: index_members_def split: prod.splits rvalue.splits)
  with assms(1,2) show ?thesis
    by (simp add: expire_def sent_def)
qed

text \<open>
  One successful call: the id it returns, the record it writes under the key of
  that id, the index it leaves, and that it touches nothing else.
\<close>

lemma store_memory_up:
  assumes "redis_client env = Some conn"
      and "\<forall>k. conn k"
      and "0 < short_term_ttl env"
      and "index_members st (sm_conversation_id request) = Some ids"
  shows "\<exists>st'.
     store_memory env request st =
       (Inr \<lparr>stored_id = memory_id_of env (sm_conversation_id request) (sm_content request),
             stored = True\<rparr>, st') \<and>
     store st' (memory_key (memory_id_of env (sm_conversation_id request) (sm_content request)))
       = Some (RString
            \<lparr>m_id = memory_id_of env (sm_conversation_id request) (sm_content request),
             m_conversation_id = sm_conversation_id request,
             m_content = sm_content request,
             m_type = sm_memory_type request,
             m_importance = sm_importance request,
             m_embedding = fst (get_embedding env (sm_content request) st)\<rparr>,
           Some (short_term_ttl env)) \<and>
     store st' (index_key (sm_conversation_id request)) =
       Some (RSet
          (if memory_id_of env (sm_conversation_id request) (sm_content request) \<in> set ids
           then ids
           else ids @ [memory_id_of env (sm_conversation_id request) (sm_content request)]),
         Some (short_term_ttl env * 24)) \<and>
     (\<forall>k. k \<noteq> memory_key (memory_id_of env (sm_conversation_id request) (sm_content request))
          \<and> k \<noteq> index_key (sm_conversation_id request) \<longrightarrow> store st' k = store st k) \<and>
     redis_ops st' = redis_ops st + 3 \<and>
     embed_calls st' = embed_calls (snd (get_embedding env (sm_content request) st))"
proof -
  let ?cid = "sm_conversation_id request"
  let ?mid = "memory_id_of env ?cid (sm_content request)"
  let ?ttl = "short_term_ttl env"
  obtain e st1 where ge: "get_embedding env (sm_content request) st = (e, st1)"
    by (metis prod.exhaust)
  with get_embedding_state [of env "sm_content request" st]
  have st1: "store st1 = store st" and o1: "redis_ops st1 = redis_ops st"
    by simp_all
  let ?d = "\<lparr>m_id = ?mid, m_conversation_id = ?cid, m_content = sm_content request,
             m_type = sm_memory_type request, m_importance = sm_importance request,
             m_embedding = e\<rparr>"
  let ?st2 = "sent (st1\<lparr>store := (store st1)(memory_key ?mid \<mapsto> (RString ?d, Some ?ttl))\<rparr>)"
  have s2: "setex conn (memory_key ?mid) ?ttl ?d st1 = (Inr (), ?st2)"
    using assms(2,3) by (simp add: setex_def)
  have i2: "index_members ?st2 ?cid = Some ids"
    using assms(4) by (simp add: index_members_def sent_def st1 index_key_not_memory_key)
  have r2: "store ?st2 (memory_key ?mid) = Some (RString ?d, Some ?ttl)"
    by (simp add: sent_def)
  have u2: "\<forall>k. k \<noteq> memory_key ?mid \<longrightarrow> store ?st2 k = store st k"
    by (simp add: sent_def st1)
  have o2: "redis_ops ?st2 = Suc (redis_ops st)" and e2: "embed_calls ?st2 = embed_calls st1"
    by (simp_all add: sent_def o1)
  let ?ids' = "if ?mid \<in> set ids then ids else ids @ [?mid]"
  from sadd_up [OF assms(2) i2, of ?mid]
  obtain st3 where s3: "sadd conn (index_key ?cid) ?mid ?st2 = (Inr (), st3)"
    and i3: "index_members st3 ?cid = Some ?ids'"
    and u3: "\<forall>k. k \<noteq> index_key ?cid \<longrightarrow> store st3 k = store ?st2 k"
    and n3: "store st3 (index_key ?cid) \<noteq> None"
    and o3: "redis_ops st3 = Suc (redis_ops ?st2)"
    and e3: "embed_calls st3 = embed_calls ?st2"
    by blast
  have ttl24: "0 < ?ttl * 24"
    using assms(3) by simp
  from expire_up [OF assms(2) ttl24 i3 n3]
  obtain st4 where s4: "expire conn (index_key ?cid) (?ttl * 24) st3 = (Inr (), st4)"
    and i4: "store st4 (index_key ?cid) = Some (RSet ?ids', Some (?ttl * 24))"
    and u4: "\<forall>k. k \<noteq> index_key ?cid \<longrightarrow> store st4 k = store st3 k"
    and o4: "redis_ops st4 = Suc (redis_ops st3)"
    and e4: "embed_calls st4 = embed_calls st3"
    by blast
  have u: "\<forall>k. k \<noteq> index_key ?cid \<longrightarrow> store st4 k = store ?st2 k"
    using u3 u4 by simp
  have r4: "store st4 (memory_key ?mid) = Some (RString ?d, Some ?ttl)"
    using u r2 memory_key_not_index_key [of ?mid ?cid] by simp
  have rest: "\<forall>k. k \<noteq> memory_key ?mid \<and> k \<noteq> index_key ?cid \<longrightarrow> store st4 k = store st k"
    using u u2 by simp
  have run: "store_memory env request st = (Inr \<lparr>stored_id = ?mid, stored = True\<rparr>, st4)"
    by (simp add: store_memory_def assms(1) ge s2 s3 s4 Let_def)
  have ops: "redis_ops st4 = redis_ops st + 3"
    using o2 o3 o4 by simp
  have emb: "embed_calls st4 = embed_calls (snd (get_embedding env (sm_content request) st))"
    using e2 e3 e4 by (simp add: ge)
  have e: "e = fst (get_embedding env (sm_content request) st)"
    by (simp add: ge)
  from run r4 i4 rest ops emb show ?thesis
    unfolding e by blast
qed

lemma index_members_of_set:
  "store st (index_key cid) = Some (RSet ids, t) \<Longrightarrow> index_members st cid = Some ids"
  by (simp add: index_members_def)

lemma get_memory_summary_up:
  assumes "redis_client env = Some conn"
      and "\<forall>k. conn k"
      and "index_members st cid = Some ids"
  shows "fst (get_memory_summary env cid st) =
           Inr \<lparr>s_conversation_id = cid, total_memories = length ids\<rparr>"
  using smembers_up [OF assms(2,3)]
  by (simp add: get_memory_summary_def assms(1))

text \<open>
  Claim C10. With the store configured and answering every command, a positive
  time to live and an index key that holds a set (or nothing), two successive
  calls of \<open>store_memory\<close> with the same conversation and the same content both
  succeed with the same id, the conversation id followed by a colon and the
  hash of the content. Each call writes its record, with the time to live,
  under the key of that id, so the second call overwrites the record of the
  first; it leaves every other key but the index as it was and adds no key.
  The members of the index after the second call are those after the first,
  among them the id, the index has 24 times the time to live, and
  \<open>get_memory_summary\<close> reports the same \<open>total_memories\<close>.
\<close>

theorem store_memory_twice:
  assumes "redis_client env = Some conn"
      and "\<forall>k. conn k"
      and "0 < short_term_ttl env"
      and "index_members st (sm_conversation_id request) \<noteq> None"
      and "sm_conversation_id request' = sm_conversation_id request"
      and "sm_content request' = sm_content request"
  shows "\<exists>st1 st2 ids.
     store_memory env request st =
       (Inr \<lparr>stored_id = sm_conversation_id request @ ustr '':''
                           @ str_int (py_hash env (sm_content request)),
             stored = True\<rparr>, st1) \<and>
     store_memory env request' st1 =
       (Inr \<lparr>stored_id = sm_conversation_id request @ ustr '':''
                           @ str_int (py_hash env (sm_content request)),
             stored = True\<rparr>, st2) \<and>
     store st1 (memory_key (sm_conversation_id request @ ustr '':''
                            @ str_int (py_hash env (sm_content request)))) =
       Some (RString
            \<lparr>m_id = sm_conversation_id request @ ustr '':''
                      @ str_int (py_hash env (sm_content request)),
             m_conversation_id = sm_conversation_id request,
             m_content = sm_content request,
             m_type = sm_memory_type request,
             m_importance = sm_importance request,
             m_embedding = fst (get_embedding env (sm_content request) st)\<rparr>,
           Some (short_term_ttl env)) \<and>
     store st2 (memory_key (sm_conversation_id request @ ustr '':''
                            @ str_int (py_hash env (sm_content request)))) =
       Some (RString
            \<lparr>m_id = sm_conversation_id request @ ustr '':''
                      @ str_int (py_hash env (sm_content request)),
             m_conversation_id = sm_conversation_id request,
             m_content = sm_content request,
             m_type = sm_memory_type request',
             m_importance = sm_importance request',
             m_embedding = fst (get_embedding env (sm_content request) st1)\<rparr>,
           Some (short_term_ttl env)) \<and>
     store st1 (index_key (sm_conversation_id request)) =
       Some (RSet ids, Some (short_term_ttl env * 24)) \<and>
     store st2 (index_key (sm_conversation_id request)) =
       Some (RSet ids, Some (short_term_ttl env * 24)) \<and>
     sm_conversation_id request @ ustr '':'' @ str_int (py_hash env (sm_content request))
       \<in> set ids \<and>
     index_members st1 (sm_conversation_id request) = Some ids \<and>
     index_members st2 (sm_conversation_id request) = Some ids \<and>
     (\<forall>k. k \<noteq> memory_key (sm_conversation_id request @ ustr '':''
                              @ str_int (py_hash env (sm_content request))) \<longrightarrow>
          store st2 k = store st1 k) \<and>
     dom (store st2) = dom (store st1) \<and>
     redis_ops st2 = redis_ops st1 + 3 \<and>
     fst (get_memory_summary env (sm_conversation_id request) st2) =
       fst (get_memory_summary env (sm_conversation_id request) st1) \<and>
     fst (get_memory_summary env (sm_conversation_id request) st2) =
       Inr \<lparr>s_conversation_id = sm_conversation_id request, total_memories = length ids\<rparr>"
proof -
  let ?cid = "sm_conversation_id request"
  let ?mid = "memory_id_of env ?cid (sm_content request)"
  let ?ttl = "short_term_ttl env"
  from assms(4) obtain ids0 where i0: "index_members st ?cid = Some ids0"
    by blast
  let ?ids = "if ?mid \<in> set ids0 then ids0 else ids0 @ [?mid]"
  let ?d1 = "\<lparr>m_id = ?mid, m_conversation_id = ?cid, m_content = sm_content request,
              m_type = sm_memory_type request, m_importance = sm_importance request,
              m_embedding = fst (get_embedding env (sm_content request) st)\<rparr>"
  from store_memory_up [OF assms(1,2,3) i0]
  obtain st1 where
    r1: "store_memory env request st = (Inr \<lparr>stored_id = ?mid, stored = True\<rparr>, st1)"
    and k1: "store st1 (memory_key ?mid) = Some (RString ?d1, Some ?ttl)"
    and x1: "store st1 (index_key ?cid) = Some (RSet ?ids, Some (?ttl * 24))"
    by blast
  have i1: "index_members st1 ?cid = Some ?ids"
    using x1 by (rule index_members_of_set)
  have mem: "?mid \<in> set ?ids"
    by simp
  have i1': "index_members st1 (sm_conversation_id request') = Some ?ids"
    using i1 by (simp add: assms(5))
  let ?d2 = "\<lparr>m_id = ?mid, m_conversation_id = ?cid, m_content = sm_content request,
              m_type = sm_memory_type request', m_importance = sm_importance request',
              m_embedding = fst (get_embedding env (sm_content request) st1)\<rparr>"
  from store_memory_up [OF assms(1,2,3) i1']
  obtain st2 where
    r2: "store_memory env request' st1 = (Inr \<lparr>stored_id = ?mid, stored = True\<rparr>, st2)"
    and k2: "store st2 (memory_key ?mid) = Some (RString ?d2, Some ?ttl)"
    and x2: "store st2 (index_key ?cid) =
        Some (RSet (if ?mid \<in> set ?ids then ?ids else ?ids @ [?mid]), Some (?ttl * 24))"
    and u2: "\<forall>k. k \<noteq> memory_key ?mid \<and> k \<noteq> index_key ?cid \<longrightarrow> store st2 k = store st1 k"
    and o2: "redis_ops st2 = redis_ops st1 + 3"
    by (auto simp: assms(5,6))
  from x2 mem have x2': "store st2 (index_key ?cid) = Some (RSet ?ids, Some (?ttl * 24))"
    by simp
  have i2: "index_members st2 ?cid = Some ?ids"
    using x2' by (rule index_members_of_set)
  have rest: "\<forall>k. k \<noteq> memory_key ?mid \<longrightarrow> store st2 k = store st1 k"
    using u2 x1 x2' by auto
  have dom: "dom (store st2) = dom (store st1)"
  proof -
    have "(store st2 k = None) = (store st1 k = None)" for k
      using rest k1 k2 by (cases "k = memory_key ?mid") simp_all
    then show ?thesis
      by (auto simp: dom_def)
  qed
  have s1: "fst (get_memory_summary env ?cid st1) =
      Inr \<lparr>s_conversation_id = ?cid, total_memories = length ?ids\<rparr>"
    using assms(1,2) i1 by (rule get_memory_summary_up)
  have s2: "fst (get_memory_summary env ?cid st2) =
      Inr \<lparr>s_conversation_id = ?cid, total_memories = length ?ids\<rparr>"
    using assms(1,2) i2 by (rule get_memory_summary_up)
  have id: "?mid = ?cid @ ustr '':'' @ str_int (py_hash env (sm_content request))"
    by (simp add: memory_id_of_def)
  show ?thesis
    apply (rule exI [of _ st1])
    apply (rule exI [of _ st2])
    apply (rule exI [of _ ?ids])
    using r1 r2 k1 k2 x1 x2' i1 i2 mem rest dom o2 s1 s2 unfolding id
    apply (intro conjI)
    apply simp_all
    done
qed

text \<open>
  The theorem at an empty store: the content \<open>"likes tea"\<close> of conversation
  \<open>c1\<close> is stored twice, the hash of the content being -11.
\<close>

lemma sample_memory_id:
  "memory_id_of sample_mem_env (ustr ''c1'') (ustr ''likes tea'') = ustr ''c1:-11''"
  by (simp add: memory_id_of_def sample_mem_env_def sample_hash_def str_int_def
      digits.simps [of 11] digits.simps [of 1] digits.simps [of "Suc 0"] ustr_def)

theorem store_memory_twice_witness:
  "redis_client sample_mem_env = Some always_up \<and> (\<forall>k. always_up k) \<and>
   0 < short_term_ttl sample_mem_env \<and>
   index_members empty_mem_state (sm_conversation_id sample_store_request) \<noteq> None \<and>
   fst (store_memory sample_mem_env sample_store_request empty_mem_state) =
     Inr \<lparr>stored_id = ustr ''c1:-11'', stored = True\<rparr> \<and>
   fst (store_memory sample_mem_env sample_store_request
          (snd (store_memory sample_mem_env sample_store_request empty_mem_state))) =
     Inr \<lparr>stored_id = ustr ''c1:-11'', stored = True\<rparr> \<and>
   store (snd (store_memory sample_mem_env sample_store_request
            (snd (store_memory sample_mem_env sample_store_request empty_mem_state))))
       (memory_key (ustr ''c1:-11'')) =
     Some (RString \<lparr>m_id = ustr ''c1:-11'', m_conversation_id = ustr ''c1'',
                     m_content = ustr ''likes tea'', m_type = ustr ''fact'',
                     m_importance = 1 / 2, m_embedding = None\<rparr>, Some 3600) \<and>
   store (snd (store_memory sample_mem_env sample_store_request
            (snd (store_memory sample_mem_env sample_store_request empty_mem_state))))
       (index_key (ustr ''c1'')) =
     Some (RSet [ustr ''c1:-11''], Some 86400) \<and>
   fst (get_memory_summary sample_mem_env (ustr ''c1'')
          (snd (store_memory sample_mem_env sample_store_request
             (snd (store_memory sample_mem_env sample_store_request empty_mem_state))))) =
     Inr \<lparr>s_conversation_id = ustr ''c1'', total_memories = 1\<rparr>"
proof -
  let ?env = sample_mem_env
  let ?req = sample_store_request
  let ?cid = "sm_conversation_id ?req"
  let ?mid = "memory_id_of ?env ?cid (sm_content ?req)"
  let ?id = "?cid @ ustr '':'' @ str_int (py_hash ?env (sm_content ?req))"
  have cid: "?cid = ustr ''c1''"
    by (simp add: sample_store_request_def)
  have mid: "?mid = ustr ''c1:-11''"
    using sample_memory_id by (simp add: sample_store_request_def)
  have id: "?id = ustr ''c1:-11''"
    using mid by (simp add: memory_id_of_def)
  have a: "redis_client ?env = Some always_up"
    by (simp add: sample_mem_env_def)
  have b: "\<forall>k. always_up k"
    by (simp add: always_up_def)
  have c: "0 < short_term_ttl ?env"
    by (simp add: sample_mem_env_def)
  have d: "index_members empty_mem_state ?cid = Some []"
    by (simp add: index_members_def empty_mem_state_def)
  then have d': "index_members empty_mem_state ?cid \<noteq> None"
    by simp
  from store_memory_up [OF a b c d]
  obtain st1 where
    r1: "store_memory ?env ?req empty_mem_state = (Inr \<lparr>stored_id = ?mid, stored = True\<rparr>, st1)"
    and x1: "store st1 (index_key ?cid) = Some (RSet [?mid], Some (short_term_ttl ?env * 24))"
    and e1: "embed_calls st1 = embed_calls (snd (get_embedding ?env (sm_content ?req) empty_mem_state))"
    by auto
  have calls: "embed_calls st1 = 1"
    by (simp add: e1 get_embedding_def sample_mem_env_def empty_mem_state_def)
  have emb: "fst (get_embedding ?env (sm_content ?req) st1) = None"
    by (simp add: get_embedding_def sample_mem_env_def sample_embedder_def calls)
  from store_memory_twice [OF a b c d' refl refl]
  obtain st1' st2 ids where
    r1': "store_memory ?env ?req empty_mem_state = (Inr \<lparr>stored_id = ?id, stored = True\<rparr>, st1')"
    and r2: "store_memory ?env ?req st1' = (Inr \<lparr>stored_id = ?id, stored = True\<rparr>, st2)"
    and k2: "store st2 (memory_key ?id) =
        Some (RString \<lparr>m_id = ?id, m_conversation_id = ?cid, m_content = sm_content ?req,
                        m_type = sm_memory_type ?req, m_importance = sm_importance ?req,
                        m_embedding = fst (get_embedding ?env (sm_content ?req) st1')\<rparr>,
              Some (short_term_ttl ?env))"
    and y1: "store st1' (index_key ?cid) = Some (RSet ids, Some (short_term_ttl ?env * 24))"
    and y2: "store st2 (index_key ?cid) = Some (RSet ids, Some (short_term_ttl ?env * 24))"
    and s2: "fst (get_memory_summary ?env ?cid st2) =
        Inr \<lparr>s_conversation_id = ?cid, total_memories = length ids\<rparr>"
    by (elim exE conjE)
  from r1 r1' have same: "st1' = st1"
    by simp
  from x1 y1 have ids: "ids = [?mid]"
    by (simp add: same)
  have first: "fst (store_memory ?env ?req empty_mem_state) =
      Inr \<lparr>stored_id = ustr ''c1:-11'', stored = True\<rparr>"
    by (simp add: r1 mid)
  have st1_eq: "snd (store_memory ?env ?req empty_mem_state) = st1"
    by (simp add: r1)
  have second: "fst (store_memory ?env ?req st1) =
      Inr \<lparr>stored_id = ustr ''c1:-11'', stored = True\<rparr>"
    using r2 by (simp add: same id)
  have st2_eq: "snd (store_memory ?env ?req st1) = st2"
    using r2 by (simp add: same)
  have rec: "store st2 (memory_key (ustr ''c1:-11'')) =
      Some (RString \<lparr>m_id = ustr ''c1:-11'', m_conversation_id = ustr ''c1'',
                      m_content = ustr ''likes tea'', m_type = ustr ''fact'',
                      m_importance = 1 / 2, m_embedding = None\<rparr>, Some 3600)"
    using k2 unfolding same emb id
    by (simp add: sample_store_request_def sample_mem_env_def)
  have ttl: "short_term_ttl ?env * 24 = 86400"
    by (simp add: sample_mem_env_def)
  have idx: "store st2 (index_key (ustr ''c1'')) = Some (RSet [ustr ''c1:-11''], Some 86400)"
    using y2 by (simp add: ids cid mid [unfolded cid] ttl)
  have summary: "fst (get_memory_summary ?env (ustr ''c1'') st2) =
      Inr \<lparr>s_conversation_id = ustr ''c1'', total_memories = 1\<rparr>"
    using s2 unfolding ids cid by simp
  from a b c d' first second rec idx summary show ?thesis
    unfolding st1_eq st2_eq by (intro conjI)
qed

section \<open>Properties of the orchestration service\<close>

subsection \<open>Moderation before and after generation\<close>

lemmas chat_eval =
  sample_chat_env_def sample_client_def sample_moderation_def sample_conversation_def
  sample_messages_def sample_memory_def sample_create_def sample_stream_def
  check_moderation_def get_conversation_context_def get_memory_context_def
  hi_request_def bad_request_def get_passed_def allow_def Let_def


lemma check_moderation_trace:
  "snd (check_moderation env c tr) = tr @ [ModerationCall c]"
  by (simp add: check_moderation_def Let_def split: mod_reply.splits option.splits)

text \<open>
  Claim C8. With a client configured: when the moderation check of the user
  message fails, \<open>chat\<close> raises the \<open>CONTENT_BLOCKED\<close> error with status 400, and
  the only call that has left the service is that check, so nothing has been
  generated. When that check passes, the context is fetched, the model call
  succeeds and the moderation check of the generated text fails, \<open>chat\<close> still
  returns a success response, whose content is the fixed refusal sentence.
\<close>

theorem chat_moderation:
  assumes "client env = Some cl"
      and "check_moderation env (message request) tr = (moderation, tr1)"
  shows "(\<not> get_passed moderation \<longrightarrow>
            chat env request tr = (Inl (ContentBlocked (verdict_flags moderation)), tr1) \<and>
            status_code (ContentBlocked (verdict_flags moderation)) = 400 \<and>
            tr1 = tr @ [ModerationCall (message request)] \<and>
            filter is_generation tr1 = filter is_generation tr) \<and>
         (get_passed moderation \<longrightarrow>
            (\<forall>ctx tr2 memories tr3 response response_moderation tr5.
               get_conversation_context env (conversation_id request) tr1 = (Inr ctx, tr2) \<and>
               get_memory_context env (conversation_id request) (message request) tr2
                 = (memories, tr3) \<and>
               messages_create cl (length tr3) (request_for ctx (message request) memories)
                 = Created response \<and>
               check_moderation env (generated_text response)
                   (tr3 @ [LLMCreate (request_for ctx (message request) memories)])
                 = (response_moderation, tr5) \<and>
               \<not> get_passed response_moderation \<longrightarrow>
               chat env request tr =
                 (Inr \<lparr>response_content =
                         ustr ''I apologize, but I cannot provide that response.'',
                       metadata = \<lparr>model = response_model response,
                                   prompt_tokens = input_tokens response,
                                   completion_tokens = output_tokens response\<rparr>\<rparr>, tr5)))"
proof (intro conjI impI allI)
  assume blocked: "\<not> get_passed moderation"
  show "chat env request tr = (Inl (ContentBlocked (verdict_flags moderation)), tr1)"
    using blocked by (simp add: chat_def assms)
  show "status_code (ContentBlocked (verdict_flags moderation)) = 400"
    by simp
  show t: "tr1 = tr @ [ModerationCall (message request)]"
    using check_moderation_trace [of env "message request" tr] assms(2) by simp
  show "filter is_generation tr1 = filter is_generation tr"
    by (simp add: t is_generation_def)
next
  fix ctx tr2 memories tr3 response response_moderation tr5
  assume ok: "get_passed moderation"
  assume rest:
    "get_conversation_context env (conversation_id request) tr1 = (Inr ctx, tr2) \<and>
     get_memory_context env (conversation_id request) (message request) tr2 = (memories, tr3) \<and>
     messages_create cl (length tr3) (request_for ctx (message request) memories)
       = Created response \<and>
     check_moderation env (generated_text response)
         (tr3 @ [LLMCreate (request_for ctx (message request) memories)])
       = (response_moderation, tr5) \<and>
     \<not> get_passed response_moderation"
  then show "chat env request tr =
      (Inr \<lparr>response_content = ustr ''I apologize, but I cannot provide that response.'',
            metadata = \<lparr>model = response_model response,
                        prompt_tokens = input_tokens response,
                        completion_tokens = output_tokens response\<rparr>\<rparr>, tr5)"
    using ok
    by (simp add: chat_def assms Let_def request_for_def generated_text_def refusal_def)
qed

text \<open>
  The theorem at the message \<open>bad\<close>, which the moderation service rejects,
  and at the message \<open>hi\<close>, to which the model answers \<open>bad\<close>.
\<close>

theorem chat_moderation_witness:
  "client sample_chat_env = Some sample_client \<and>
   \<not> get_passed (fst (check_moderation sample_chat_env (message bad_request) [])) \<and>
   chat sample_chat_env bad_request [] =
     (Inl (ContentBlocked [keyword_flag]), [ModerationCall (ustr ''bad'')]) \<and>
   get_passed (fst (check_moderation sample_chat_env (message hi_request) [])) \<and>
   fst (chat sample_chat_env hi_request []) =
     Inr \<lparr>response_content = ustr ''I apologize, but I cannot provide that response.'',
           metadata = \<lparr>model = ustr ''m1'', prompt_tokens = 12, completion_tokens = 3\<rparr>\<rparr>"
proof -
  let ?env = sample_chat_env
  have a: "client ?env = Some sample_client"
    by (simp add: sample_chat_env_def)
  let ?block = "\<lparr>verdict_passed = Some False, verdict_flags = [keyword_flag]\<rparr>"
  let ?pass = "\<lparr>verdict_passed = Some True, verdict_flags = []\<rparr>"
  have m1: "check_moderation ?env (message bad_request) [] =
      (?block, [ModerationCall (ustr ''bad'')])"
    by (simp add: chat_eval)
  have n1: "\<not> get_passed ?block"
    by (simp add: get_passed_def)
  from chat_moderation [OF a m1] n1
  have blocked: "chat ?env bad_request [] =
      (Inl (ContentBlocked [keyword_flag]), [ModerationCall (ustr ''bad'')])"
    by simp
  let ?tr1 = "[ModerationCall (ustr ''hi'')]"
  have m2: "check_moderation ?env (message hi_request) [] = (?pass, ?tr1)"
    by (simp add: chat_eval ustr_def)
  have p2: "get_passed ?pass"
    by (simp add: get_passed_def)
  let ?ctx = "\<lparr>context_messages = [], character_prompt = None\<rparr>"
  let ?tr2 = "?tr1 @ [ConversationGet (ustr ''c1''), MessagesGet (ustr ''c1'')]"
  have c: "get_conversation_context ?env (conversation_id hi_request) ?tr1 = (Inr ?ctx, ?tr2)"
    by (simp add: chat_eval)
  let ?tr3 = "?tr2 @ [MemoryRetrieve (ustr ''c1'') (ustr ''hi'')]"
  have g: "get_memory_context ?env (conversation_id hi_request) (message hi_request) ?tr2
      = ([], ?tr3)"
    by (simp add: chat_eval)
  let ?req = "request_for ?ctx (message hi_request) []"
  let ?resp = "\<lparr>first_text = Some (ustr ''bad''), response_model = ustr ''m1'',
                input_tokens = 12, output_tokens = 3\<rparr>"
  have cr: "messages_create sample_client (length ?tr3) ?req = Created ?resp"
    by (simp add: sample_client_def sample_create_def)
  let ?tr5 = "(?tr3 @ [LLMCreate ?req]) @ [ModerationCall (ustr ''bad'')]"
  have pm: "check_moderation ?env (generated_text ?resp) (?tr3 @ [LLMCreate ?req])
      = (?block, ?tr5)"
    by (simp add: chat_eval generated_text_def)
  have all: "get_conversation_context ?env (conversation_id hi_request) ?tr1 = (Inr ?ctx, ?tr2) \<and>
     get_memory_context ?env (conversation_id hi_request) (message hi_request) ?tr2 = ([], ?tr3) \<and>
     messages_create sample_client (length ?tr3) ?req = Created ?resp \<and>
     check_moderation ?env (generated_text ?resp) (?tr3 @ [LLMCreate ?req]) = (?block, ?tr5) \<and>
     \<not> get_passed ?block"
    using c g cr pm n1 by (intro conjI)
  note refused = chat_moderation [OF a m2, THEN conjunct2, THEN mp, OF p2, rule_format, OF all]
  have swallowed: "fst (chat ?env hi_request []) =
      Inr \<lparr>response_content = ustr ''I apologize, but I cannot provide that response.'',
            metadata = \<lparr>model = ustr ''m1'', prompt_tokens = 12, completion_tokens = 3\<rparr>\<rparr>"
    unfolding refused by simp
  from a m1 n1 blocked m2 p2 swallowed show ?thesis
    by simp
qed

subsection \<open>The event stream\<close>

lemma stream_loop_eq:
  "stream_loop ts full_content events = (full_content @ concat ts, events @ map Chunk ts)"
  by (induction ts arbitrary: full_content events) simp_all

lemma generate_eq:
  "generate env cl req tr =
     (case messages_stream cl (length tr) req of
        StreamRaises \<Rightarrow> [Error (ustr ''AI service unavailable'')]
      | StreamTexts texts ending \<Rightarrow>
          map Chunk texts @
            (case ending of
               Breaks \<Rightarrow> [Error (ustr ''AI service unavailable'')]
             | Ends \<Rightarrow> [Done (concat texts) (claude_model env)]
             | EndsCloseRaises \<Rightarrow>
                 [Done (concat texts) (claude_model env),
                  Error (ustr ''AI service unavailable'')]),
      tr @ [LLMStream req])"
  by (simp add: generate_def stream_loop_eq Let_def
      split: stream_reply.splits stream_end.splits)

lemma chunk_not_done: "\<not> is_done (Chunk t)"
  by (simp add: is_done_def ustr_def)

lemma chunk_not_error: "\<not> is_error (Chunk t)"
  by (simp add: is_error_def ustr_def)

lemma filter_chunks_done: "filter is_done (map Chunk ts) = []"
  by (induction ts) (simp_all add: chunk_not_done)

lemma filter_chunks_error: "filter is_error (map Chunk ts) = []"
  by (induction ts) (simp_all add: chunk_not_error)

lemma done_is_done: "is_done (Done t m) \<and> \<not> is_error (Done t m)"
  by (simp add: is_done_def is_error_def ustr_def)

lemma error_is_error: "is_error (Error e) \<and> \<not> is_done (Error e)"
  by (simp add: is_done_def is_error_def ustr_def)

lemma chat_stream_generate:
  assumes "chat_stream env request tr = (Inr events, tr')"
  shows "\<exists>cl req tr3. client env = Some cl \<and> generate env cl req tr3 = (events, tr')"
proof -
  from assms obtain cl where cl: "client env = Some cl"
    by (cases "client env") (simp_all add: chat_stream_def)
  obtain moderation tr1 where m: "check_moderation env (message request) tr = (moderation, tr1)"
    by (metis prod.exhaust)
  from assms cl m have p: "get_passed moderation"
    by (simp add: chat_stream_def split: if_splits)
  obtain r tr2 where c: "get_conversation_context env (conversation_id request) tr1 = (r, tr2)"
    by (metis prod.exhaust)
  from assms cl m p c obtain ctx where r: "r = Inr ctx"
    by (cases r) (simp_all add: chat_stream_def)
  obtain memories tr3 where
    g: "get_memory_context env (conversation_id request) (message request) tr2 = (memories, tr3)"
    by (metis prod.exhaust)
  let ?req = "request_for ctx (message request) memories"
  obtain evs tr4 where e: "generate env cl ?req tr3 = (evs, tr4)"
    by (metis prod.exhaust)
  from assms cl m p c r g e have "events = evs \<and> tr' = tr4"
    by (simp add: chat_stream_def Let_def request_for_def)
  with cl e show ?thesis
    by blast
qed

text \<open>
  The events of every stream that \<open>chat_stream\<close> returns, by what the one call
  of the streaming API does: a chunk for every text and then \<open>done\<close> with their
  concatenation when the stream ends and is closed without trouble; a chunk
  for every text handed out and then \<open>error\<close> when the call raises on entering
  or while the texts are read; and a chunk for every text, then \<open>done\<close>, then
  \<open>error\<close> when the stream ends and closing it raises.
\<close>

lemma chat_stream_events:
  assumes "chat_stream env request tr = (Inr events, tr')"
  shows "\<exists>cl req tr3 texts.
           client env = Some cl \<and> tr' = tr3 @ [LLMStream req] \<and>
           ((messages_stream cl (length tr3) req = StreamTexts texts Ends \<and>
             events = map Chunk texts @ [Done (concat texts) (claude_model env)] \<and>
             length (filter is_done events) = 1 \<and> filter is_error events = []) \<or>
            ((messages_stream cl (length tr3) req = StreamTexts texts Breaks \<or>
              messages_stream cl (length tr3) req = StreamRaises \<and> texts = []) \<and>
             events = map Chunk texts @ [Error (ustr ''AI service unavailable'')] \<and>
             length (filter is_error events) = 1 \<and> filter is_done events = []) \<or>
            (messages_stream cl (length tr3) req = StreamTexts texts EndsCloseRaises \<and>
             events = map Chunk texts @ [Done (concat texts) (claude_model env),
                                         Error (ustr ''AI service unavailable'')] \<and>
             length (filter is_done events) = 1 \<and> length (filter is_error events) = 1))"
proof -
  from chat_stream_generate [OF assms]
  obtain cl req tr3 where cl: "client env = Some cl"
    and g: "generate env cl req tr3 = (events, tr')"
    by blast
  from g have tr': "tr' = tr3 @ [LLMStream req]"
    by (simp add: generate_eq)
  show ?thesis
  proof (cases "messages_stream cl (length tr3) req")
    case StreamRaises
    with g have "events = map Chunk [] @ [Error (ustr ''AI service unavailable'')]"
      by (simp add: generate_eq)
    with StreamRaises cl tr' show ?thesis
      by (intro exI [of _ cl] exI [of _ req] exI [of _ tr3] exI [of _ "[]"])
        (simp add: error_is_error)
  next
    case (StreamTexts texts ending)
    show ?thesis
    proof (cases ending)
      case Ends
      with StreamTexts g
      have "events = map Chunk texts @ [Done (concat texts) (claude_model env)]"
        by (simp add: generate_eq)
      with StreamTexts Ends cl tr' show ?thesis
        by (intro exI [of _ cl] exI [of _ req] exI [of _ tr3] exI [of _ texts])
          (simp add: done_is_done filter_chunks_done filter_chunks_error)
    next
      case Breaks
      with StreamTexts g
      have "events = map Chunk texts @ [Error (ustr ''AI service unavailable'')]"
        by (simp add: generate_eq)
      with StreamTexts Breaks cl tr' show ?thesis
        by (intro exI [of _ cl] exI [of _ req] exI [of _ tr3] exI [of _ texts])
          (simp add: error_is_error filter_chunks_done filter_chunks_error)
    next
      case EndsCloseRaises
      with StreamTexts g
      have "events = map Chunk texts @ [Done (concat texts) (claude_model env),
                                        Error (ustr ''AI service unavailable'')]"
        by (simp add: generate_eq)
      with StreamTexts EndsCloseRaises cl tr' show ?thesis
        by (intro exI [of _ cl] exI [of _ req] exI [of _ tr3] exI [of _ texts])
          (simp add: done_is_done error_is_error filter_chunks_done filter_chunks_error)
    qed
  qed
qed

text \<open>
  At a stream that ends after \<open>Hel\<close> and \<open>lo\<close>, and at one that breaks after
  \<open>Hel\<close>.
\<close>

lemma sample_stream_ends:
  "fst (chat_stream sample_chat_env hi_request []) =
     Inr [Chunk (ustr ''Hel''), Chunk (ustr ''lo''), Done (ustr ''Hello'') (ustr ''m1'')]"
  by (simp add: chat_stream_def chat_eval generate_eq ustr_def)

lemma sample_stream_breaks:
  "fst (chat_stream sample_chat_env hi_request [ModerationCall []]) =
     Inr [Chunk (ustr ''Hel''), Error (ustr ''AI service unavailable'')]"
  by (simp add: chat_stream_def chat_eval generate_eq ustr_def)

text \<open>
  Claim C9. The claim wants every stream to hold either one \<open>done\<close> event or
  one \<open>error\<close> event, never both. The code yields \<open>done\<close> inside the \<open>with\<close>
  block and inside the \<open>try\<close>, so an exception raised on leaving the block is
  caught by the same handler: for a request that passes moderation, with a
  provider whose stream hands out \<open>Hel\<close> and \<open>lo\<close>, ends, and fails on being
  closed, the events are the two chunks, \<open>done\<close> with \<open>Hello\<close>, and then
  \<open>error\<close>.
\<close>

theorem chat_stream_done_then_error:
  "fst (chat_stream closing_chat_env hi_request []) =
     Inr [Chunk (ustr ''Hel''), Chunk (ustr ''lo''), Done (ustr ''Hello'') (ustr ''m1''),
          Error (ustr ''AI service unavailable'')]"
  by (simp add: chat_stream_def closing_chat_env_def closing_client_def closing_stream_def
      chat_eval generate_eq ustr_def)

end
